theory Spec2Isabelle
  imports Main "HOL-Library.Word" "HOL-Library.AList"
begin

section \<open>JavaScript strings\<close>

text \<open>
  A JavaScript string is a sequence of UTF-16 code units; \<open>s.length\<close> counts code
  units, and \<open>===\<close> compares them one by one. String literals of the source are
  ASCII and are embedded with \<open>lit\<close>.
\<close>

type_synonym js_char = "16 word"
type_synonym js_string = "js_char list"

definition lit :: "string \<Rightarrow> js_string" where
  "lit s = map of_char s"

text \<open>
  ECMAScript WhiteSpace and LineTerminator code points. The character class \<open>\s\<close> of a
  regular expression and \<open>String.prototype.trim\<close> use the same set.
\<close>

definition is_white_space :: "js_char \<Rightarrow> bool" where
  "is_white_space c \<longleftrightarrow>
     c \<in> set [0x0009, 0x000A, 0x000B, 0x000C, 0x000D, 0x0020, 0x00A0, 0x1680,
              0x2000, 0x2001, 0x2002, 0x2003, 0x2004, 0x2005, 0x2006, 0x2007,
              0x2008, 0x2009, 0x200A, 0x2028, 0x2029, 0x202F, 0x205F, 0x3000,
              0xFEFF]"

text \<open>\<open>s.trim()\<close>: white space removed from both ends.\<close>

definition trim :: "js_string \<Rightarrow> js_string" where
  "trim s = rev (dropWhile is_white_space (rev (dropWhile is_white_space s)))"

text \<open>
  \<open>s.split(sep)\<close> for a separator of one code unit: the pieces between the
  separators, in order; a string without separator is the only piece, the empty string
  included.
\<close>

fun split_on :: "js_char \<Rightarrow> js_string \<Rightarrow> js_string list" where
  "split_on sep [] = [[]]"
| "split_on sep (c # cs) =
     (if c = sep then [] # split_on sep cs
      else (case split_on sep cs of
              [] \<Rightarrow> [[c]]
            | w # ws \<Rightarrow> (c # w) # ws))"

definition comma :: js_char where
  "comma = 0x002C"

text \<open>\<open>pieces.join(sep)\<close>, the inverse direction, used to characterise \<open>split_on\<close>.\<close>

fun join_with :: "js_char \<Rightarrow> js_string list \<Rightarrow> js_string" where
  "join_with sep [] = []"
| "join_with sep [w] = w"
| "join_with sep (w # ws) = w @ sep # join_with sep ws"

section \<open>Regular expressions\<close>

text \<open>
  The fragment of regular expressions that \<open>AuthContext.tsx\<close> uses: character classes,
  sequence and \<open>+\<close>. A pattern anchored by \<open>^\<close> and \<open>$\<close> (no flags) is tested against the
  whole string, so \<open>RegExp.prototype.test\<close> is membership of the string in the
  pattern's language, decided here by derivatives.
\<close>

datatype rexp =
    Zero
  | One
  | Atom "js_char \<Rightarrow> bool"
  | Alt rexp rexp
  | Seq rexp rexp
  | Star rexp

definition Plus_rexp :: "rexp \<Rightarrow> rexp" where
  "Plus_rexp r = Seq r (Star r)"

fun nullable :: "rexp \<Rightarrow> bool" where
  "nullable Zero = False"
| "nullable One = True"
| "nullable (Atom P) = False"
| "nullable (Alt r s) = (nullable r \<or> nullable s)"
| "nullable (Seq r s) = (nullable r \<and> nullable s)"
| "nullable (Star r) = True"

fun deriv :: "js_char \<Rightarrow> rexp \<Rightarrow> rexp" where
  "deriv c Zero = Zero"
| "deriv c One = Zero"
| "deriv c (Atom P) = (if P c then One else Zero)"
| "deriv c (Alt r s) = Alt (deriv c r) (deriv c s)"
| "deriv c (Seq r s) =
     (if nullable r then Alt (Seq (deriv c r) s) (deriv c s) else Seq (deriv c r) s)"
| "deriv c (Star r) = Seq (deriv c r) (Star r)"

definition RegExp_test :: "rexp \<Rightarrow> js_string \<Rightarrow> bool" where
  "RegExp_test r s = nullable (foldl (\<lambda>r c. deriv c r) r s)"

text \<open>The language of a pattern, as a set of strings.\<close>

definition conc :: "js_string set \<Rightarrow> js_string set \<Rightarrow> js_string set" where
  "conc A B = {u @ v | u v. u \<in> A \<and> v \<in> B}"

inductive_set star :: "js_string set \<Rightarrow> js_string set" for A :: "js_string set" where
  star_empty: "[] \<in> star A"
| star_step: "u \<in> A \<Longrightarrow> v \<in> star A \<Longrightarrow> u @ v \<in> star A"

fun lang :: "rexp \<Rightarrow> js_string set" where
  "lang Zero = {}"
| "lang One = {[]}"
| "lang (Atom P) = {[c] | c. P c}"
| "lang (Alt r s) = lang r \<union> lang s"
| "lang (Seq r s) = conc (lang r) (lang s)"
| "lang (Star r) = star (lang r)"

section \<open>Credential check (\<open>AuthContext.tsx\<close>)\<close>

record User =
  email :: js_string
  isAdmin :: bool

text \<open>A thrown \<open>new Error(message)\<close>, identified by its message.\<close>

datatype js_error = Error js_string

text \<open>The three errors \<open>login\<close> throws, under the names of the error taxonomy.\<close>

definition InvalidFormat :: js_error where
  "InvalidFormat = Error (lit ''Please enter a valid email address'')"

definition WeakCredential :: js_error where
  "WeakCredential = Error (lit ''Password must be at least 6 characters long'')"

definition AuthenticationFailed :: js_error where
  "AuthenticationFailed = Error (lit ''Invalid email or password'')"

definition at_sign :: js_char where
  "at_sign = 0x0040"

definition full_stop :: js_char where
  "full_stop = 0x002E"

text \<open>The class \<open>[^\s@]\<close>.\<close>

definition not_space_or_at :: "js_char \<Rightarrow> bool" where
  "not_space_or_at c \<longleftrightarrow> \<not> is_white_space c \<and> c \<noteq> at_sign"

text \<open>\<open>/^[^\s@]+@[^\s@]+\.[^\s@]+$/\<close>\<close>

definition emailRegex :: rexp where
  "emailRegex =
     Seq (Plus_rexp (Atom not_space_or_at))
       (Seq (Atom (\<lambda>c. c = at_sign))
         (Seq (Plus_rexp (Atom not_space_or_at))
           (Seq (Atom (\<lambda>c. c = full_stop))
             (Plus_rexp (Atom not_space_or_at)))))"

definition admin_email :: js_string where
  "admin_email = lit ''admin@easyfindshub.com''"

definition admin_password :: js_string where
  "admin_password = lit ''admin123''"

text \<open>
  \<open>login\<close> takes the stored session (\<open>user\<close> of \<open>useState\<close>) and returns the outcome
  together with the session afterwards: \<open>Inl\<close> is the thrown error, \<open>Inr ()\<close> a normal
  return. Only the success branch calls \<open>setUser\<close>.
\<close>

definition login ::
  "User option \<Rightarrow> js_string \<Rightarrow> js_string \<Rightarrow> (js_error + unit) \<times> User option" where
  "login user email_arg password =
     (if \<not> RegExp_test emailRegex email_arg then (Inl InvalidFormat, user)
      else if length password < 6 then (Inl WeakCredential, user)
      else if email_arg = admin_email \<and> password = admin_password
        then (Inr (), Some \<lparr>email = email_arg, isAdmin = True\<rparr>)
      else (Inl AuthenticationFailed, user))"

definition logout :: "User option \<Rightarrow> User option" where
  "logout user = None"

text \<open>
  The shape \<open>local@domain.tld\<close> in words: three non-empty runs of characters that
  are neither white space nor \<open>@\<close>, the first two separated by \<open>@\<close>, the last two by a
  full stop.
\<close>

definition email_shape :: "js_string \<Rightarrow> bool" where
  "email_shape s \<longleftrightarrow>
     (\<exists>l d t. s = l @ at_sign # d @ full_stop # t \<and>
        l \<noteq> [] \<and> d \<noteq> [] \<and> t \<noteq> [] \<and>
        (\<forall>c \<in> set l. not_space_or_at c) \<and>
        (\<forall>c \<in> set d. not_space_or_at c) \<and>
        (\<forall>c \<in> set t. not_space_or_at c))"

section \<open>Numbers as text\<close>

text \<open>
  \<open>Date.now()\<close> is an integer number of milliseconds; a template literal converts it
  with \<open>Number::toString\<close>, which for an integer of this size is its decimal numeral,
  with a leading minus sign below zero.
\<close>

definition digit_char :: "nat \<Rightarrow> js_char" where
  "digit_char d = of_nat (48 + d)"

fun decimal_nat :: "nat \<Rightarrow> js_string" where
  "decimal_nat n =
     (if n < 10 then [digit_char n] else decimal_nat (n div 10) @ [digit_char (n mod 10)])"

declare decimal_nat.simps [simp del]

definition minus_sign :: js_char where
  "minus_sign = 0x002D"

definition Number_toString :: "int \<Rightarrow> js_string" where
  "Number_toString n =
     (if n < 0 then minus_sign # decimal_nat (nat (- n)) else decimal_nat (nat n))"

text \<open>Reading a decimal numeral back, to say what \<open>Number_toString\<close> produces.\<close>

definition digit_value :: "js_char \<Rightarrow> nat" where
  "digit_value c = unat c - 48"

definition decimal_value :: "js_string \<Rightarrow> nat" where
  "decimal_value ds = foldl (\<lambda>acc c. 10 * acc + digit_value c) 0 ds"

definition is_digit :: "js_char \<Rightarrow> bool" where
  "is_digit c \<longleftrightarrow> 48 \<le> unat c \<and> unat c \<le> 57"

definition parse_integer :: "js_string \<Rightarrow> int" where
  "parse_integer s =
     (case s of
        [] \<Rightarrow> 0
      | c # ds \<Rightarrow>
          if c = minus_sign then - int (decimal_value ds) else int (decimal_value (c # ds)))"

section \<open>Article authoring and publishing (\<open>Dashboard.tsx\<close>)\<close>

subsection \<open>Data\<close>

text \<open>
  The fields that register with the form. The interface \<open>ArticleForm\<close> also declares
  \<open>content\<close>, but no input registers it: the editor's markup lives in the component
  state and is what gets written.
\<close>

record ArticleForm =
  title :: js_string
  category :: js_string
  excerpt :: js_string
  tags :: js_string

record File =
  name :: js_string
  bytes :: "8 word list"

datatype field = Title | Category | Excerpt | Tags

text \<open>
  The state of the \<open>AddArticle\<close> component: the form and the \<open>useState\<close> cells.
  \<open>content\<close> is the cell that \<open>setContent\<close> writes, the markup that is previewed and
  persisted; the document the editor widget keeps for itself is not part of this state.
\<close>

record AddArticle =
  formValues :: ArticleForm
  errors :: "field \<Rightarrow> js_string option"
  image_file :: "File option"
  imagePreview :: js_string
  isSubmitting :: bool
  showPreview :: bool
  content :: js_string

text \<open>
  \<open>useForm\<close> is called without default values, so each field holds what its input
  holds when nothing was entered: the text inputs are empty, and the \<open>select\<close> of the
  category (lines 125 to 133), which has no empty option, holds its first option.
\<close>

definition useForm_defaultValues :: ArticleForm where
  "useForm_defaultValues =
     \<lparr>title = [], category = lit ''home-decor'', excerpt = [], tags = []\<rparr>"

definition no_errors :: "field \<Rightarrow> js_string option" where
  "no_errors = (\<lambda>f. None)"

definition AddArticle_initial :: AddArticle where
  "AddArticle_initial =
     \<lparr>formValues = useForm_defaultValues, errors = no_errors, image_file = None,
      imagePreview = [], isSubmitting = False, showPreview = False, content = []\<rparr>"

text \<open>
  Modelled from the spec: \<open>reset\<close> of the form library is not under \<open>src/\<close>; called
  without arguments it puts every field back to the value it had when the form was
  mounted and clears the field errors.
\<close>

definition reset :: "AddArticle \<Rightarrow> AddArticle" where
  "reset s = s\<lparr>formValues := useForm_defaultValues, errors := no_errors\<rparr>"

definition removeImage :: "AddArticle \<Rightarrow> AddArticle" where
  "removeImage s = s\<lparr>image_file := None, imagePreview := []\<rparr>"

subsection \<open>The world outside\<close>

text \<open>
  A value stored in a document: a string or an array of strings. An object literal is
  its properties in insertion order; defining a property that exists replaces its value
  in place, which is \<open>AList.update\<close>.
\<close>

datatype js_value = Str js_string | Arr "js_string list"

type_synonym js_object = "(string \<times> js_value) list"

text \<open>
  The calls \<open>onSubmit\<close> makes to its collaborators, as they appear to an observer. A
  storage reference is written as its path, a collection as its name.
\<close>

datatype effect =
    UploadBytes js_string File
  | GetDownloadURL js_string
  | AddDoc js_string js_object
  | ConsoleError js_string js_error
  | Alert js_string

text \<open>
  What the collaborators answer: the clock, and for each awaited call either the
  rejection (\<open>Inl\<close>) or the resolved value (\<open>Inr\<close>). The clients themselves are not
  part of the repository; a claim holds for every such environment.
\<close>

record env =
  Date_now :: int
  Date_toISOString :: js_string
  uploadBytes :: "js_string \<Rightarrow> File \<Rightarrow> js_error + unit"
  getDownloadURL :: "js_string \<Rightarrow> js_error + js_string"
  addDoc :: "js_string \<Rightarrow> js_object \<Rightarrow> js_error + unit"

text \<open>
  A log entry is an effect together with the component state in force while it
  happens.
\<close>

type_synonym log = "(AddArticle \<times> effect) list"

subsection \<open>\<open>onSubmit\<close>\<close>

text \<open>The template literal \<open>articles/${Date.now()}-${image.name}\<close>.\<close>

definition storage_key :: "int \<Rightarrow> File \<Rightarrow> js_string" where
  "storage_key now f = lit ''articles/'' @ Number_toString now @ lit ''-'' @ name f"

text \<open>Lines 62 to 68: the image URL, empty unless an image is staged and uploaded.\<close>

definition upload_image :: "env \<Rightarrow> AddArticle \<Rightarrow> (js_error + js_string) \<times> log" where
  "upload_image e s =
     (case image_file s of
        None \<Rightarrow> (Inr [], [])
      | Some f \<Rightarrow>
          (let key = storage_key (Date_now e) f in
           case uploadBytes e key f of
             Inl err \<Rightarrow> (Inl err, [(s, UploadBytes key f)])
           | Inr u \<Rightarrow>
               (case getDownloadURL e key of
                  Inl err \<Rightarrow> (Inl err, [(s, UploadBytes key f), (s, GetDownloadURL key)])
                | Inr url \<Rightarrow> (Inr url, [(s, UploadBytes key f), (s, GetDownloadURL key)]))))"

text \<open>Line 70: \<open>data.tags.split(',').map(tag => tag.trim())\<close>.\<close>

definition persisted_tags :: "js_string \<Rightarrow> js_string list" where
  "persisted_tags raw = map trim (split_on comma raw)"

text \<open>The object \<open>data\<close> that the form library hands over: the registered fields.\<close>

definition data_object :: "ArticleForm \<Rightarrow> js_object" where
  "data_object d =
     [(''title'', Str (title d)), (''category'', Str (category d)),
      (''excerpt'', Str (excerpt d)), (''tags'', Str (tags d))]"

text \<open>Lines 72 to 78: \<open>{...data, content, imageUrl, tags, createdAt}\<close>.\<close>

definition article_doc ::
  "ArticleForm \<Rightarrow> js_string \<Rightarrow> js_string \<Rightarrow> js_string list \<Rightarrow> js_string \<Rightarrow> js_object" where
  "article_doc d content_arg imageUrl tags_arg createdAt =
     AList.update ''createdAt'' (Str createdAt)
       (AList.update ''tags'' (Arr tags_arg)
         (AList.update ''imageUrl'' (Str imageUrl)
           (AList.update ''content'' (Str content_arg) (data_object d))))"

text \<open>
  The \<open>try\<close> block. The result is the error that leaves the block, if any, the state,
  and the log.
\<close>

definition onSubmit_try :: "env \<Rightarrow> AddArticle \<Rightarrow> ArticleForm \<Rightarrow> (js_error + unit) \<times> AddArticle \<times> log" where
  "onSubmit_try e s d =
     (let s1 = s\<lparr>isSubmitting := True\<rparr> in
      case upload_image e s1 of
        (Inl err, l) \<Rightarrow> (Inl err, s1, l)
      | (Inr imageUrl, l) \<Rightarrow>
          (let doc = article_doc d (content s1) imageUrl (persisted_tags (tags d))
                       (Date_toISOString e)
           in case addDoc e (lit ''articles'') doc of
                Inl err \<Rightarrow> (Inl err, s1, l @ [(s1, AddDoc (lit ''articles'') doc)])
              | Inr u \<Rightarrow>
                  (let s2 = (reset s1)\<lparr>content := [], image_file := None, imagePreview := []\<rparr>
                   in (Inr (), s2,
                       l @ [(s1, AddDoc (lit ''articles'') doc),
                            (s2, Alert (lit ''Article published successfully!''))]))))"

text \<open>\<open>onSubmit\<close>: the \<open>try\<close> block, then \<open>catch\<close> on an error, then \<open>finally\<close>.\<close>

definition onSubmit :: "env \<Rightarrow> AddArticle \<Rightarrow> ArticleForm \<Rightarrow> AddArticle \<times> log" where
  "onSubmit e s d =
     (case onSubmit_try e s d of
        (Inr u, s', l) \<Rightarrow> (s'\<lparr>isSubmitting := False\<rparr>, l)
      | (Inl err, s', l) \<Rightarrow>
          (s'\<lparr>isSubmitting := False\<rparr>,
           l @ [(s', ConsoleError (lit ''Error publishing article:'') err),
                (s', Alert (lit ''Error publishing article. Please try again.''))]))"

text \<open>Projections of a log.\<close>

fun is_upload :: "effect \<Rightarrow> bool" where
  "is_upload (UploadBytes k f) = True"
| "is_upload (GetDownloadURL k) = True"
| "is_upload _ = False"

fun is_write :: "effect \<Rightarrow> bool" where
  "is_write (AddDoc c doc) = True"
| "is_write _ = False"

fun written_docs :: "log \<Rightarrow> js_object list" where
  "written_docs [] = []"
| "written_docs ((s, AddDoc c doc) # l) = doc # written_docs l"
| "written_docs (x # l) = written_docs l"

fun upload_calls :: "log \<Rightarrow> (js_string \<times> File) list" where
  "upload_calls [] = []"
| "upload_calls ((s, UploadBytes k f) # l) = (k, f) # upload_calls l"
| "upload_calls (x # l) = upload_calls l"

fun user_alerts :: "log \<Rightarrow> js_string list" where
  "user_alerts [] = []"
| "user_alerts ((s, Alert m) # l) = m # user_alerts l"
| "user_alerts (x # l) = user_alerts l"

fun console_errors :: "log \<Rightarrow> js_error list" where
  "console_errors [] = []"
| "console_errors ((s, ConsoleError m err) # l) = err # console_errors l"
| "console_errors (x # l) = console_errors l"

subsection \<open>Validation and the submit control\<close>

record RegisterOptions =
  required :: "js_string option"
  minLength :: "(nat \<times> js_string) option"
  maxLength :: "(nat \<times> js_string) option"

text \<open>The options each input passes to \<open>register\<close> (lines 112 to 157).\<close>

fun register_options :: "field \<Rightarrow> RegisterOptions" where
  "register_options Title =
     \<lparr>required = Some (lit ''Title is required''),
      minLength = Some (10, lit ''Title must be at least 10 characters''),
      maxLength = None\<rparr>"
| "register_options Category =
     \<lparr>required = Some (lit ''Category is required''), minLength = None, maxLength = None\<rparr>"
| "register_options Excerpt =
     \<lparr>required = Some (lit ''Excerpt is required''),
      minLength = None,
      maxLength = Some (160, lit ''Excerpt must be less than 160 characters'')\<rparr>"
| "register_options Tags =
     \<lparr>required = Some (lit ''At least one tag is required''), minLength = None, maxLength = None\<rparr>"

text \<open>The values the \<open>select\<close> of the category offers (lines 129 to 132).\<close>

definition category_options :: "js_string list" where
  "category_options =
     [lit ''home-decor'', lit ''travel-deals'', lit ''home-appliances'', lit ''garden-planting'']"

definition registered_fields :: "field list" where
  "registered_fields = [Title, Category, Excerpt, Tags]"

fun field_value :: "ArticleForm \<Rightarrow> field \<Rightarrow> js_string" where
  "field_value d Title = title d"
| "field_value d Category = category d"
| "field_value d Excerpt = excerpt d"
| "field_value d Tags = tags d"

text \<open>
  Modelled from the spec: the form library's check of one field is not under \<open>src/\<close>.
  \<open>required\<close> fails on the empty value; the length bounds are looked at for a
  non-empty value only, \<open>minLength\<close> failing below its bound and \<open>maxLength\<close> above it;
  the first failing rule gives the message.
\<close>

definition validateField :: "RegisterOptions \<Rightarrow> js_string \<Rightarrow> js_string option" where
  "validateField opts v =
     (if v = [] then required opts
      else (case maxLength opts of
              Some (n, m) \<Rightarrow> if n < length v then Some m else
                (case minLength opts of
                   Some (n', m') \<Rightarrow> if length v < n' then Some m' else None
                 | None \<Rightarrow> None)
            | None \<Rightarrow>
                (case minLength opts of
                   Some (n', m') \<Rightarrow> if length v < n' then Some m' else None
                 | None \<Rightarrow> None)))"

definition validate_form :: "ArticleForm \<Rightarrow> field \<Rightarrow> js_string option" where
  "validate_form d f = validateField (register_options f) (field_value d f)"

text \<open>
  Modelled from the spec: \<open>handleSubmit\<close> of the form library is not under \<open>src/\<close>. It
  checks every registered field; with no error it calls \<open>onSubmit\<close> with the values
  (\<open>Inr\<close>), otherwise it publishes all the errors and does not call it (\<open>Inl\<close>).
\<close>

definition handleSubmit :: "env \<Rightarrow> AddArticle \<Rightarrow> AddArticle + AddArticle \<times> log" where
  "handleSubmit e s =
     (let errs = validate_form (formValues s) in
      if list_all (\<lambda>f. errs f = None) registered_fields
      then Inr (onSubmit e (s\<lparr>errors := no_errors\<rparr>) (formValues s))
      else Inl (s\<lparr>errors := errs\<rparr>))"

text \<open>
  The rules in words, one per field, to compare with what the registered options do:
  title required with at least 10 characters, category required, excerpt required
  with at most 160 characters, raw tags required.
\<close>

fun rule_fails :: "field \<Rightarrow> ArticleForm \<Rightarrow> bool" where
  "rule_fails Title d = (title d = [] \<or> length (title d) < 10)"
| "rule_fails Category d = (category d = [])"
| "rule_fails Excerpt d = (excerpt d = [] \<or> 160 < length (excerpt d))"
| "rule_fails Tags d = (tags d = [])"

text \<open>Whether \<open>handleSubmit\<close> went on to call \<open>onSubmit\<close>.\<close>

fun submitted :: "AddArticle + AddArticle \<times> log \<Rightarrow> bool" where
  "submitted (Inl s) = False"
| "submitted (Inr r) = True"

text \<open>Line 182: \<open>disabled={isSubmitting}\<close>. A disabled submit button submits nothing.\<close>

definition submit_disabled :: "AddArticle \<Rightarrow> bool" where
  "submit_disabled s = isSubmitting s"

definition click_submit :: "env \<Rightarrow> AddArticle \<Rightarrow> (AddArticle + AddArticle \<times> log) option" where
  "click_submit e s = (if submit_disabled s then None else Some (handleSubmit e s))"

section \<open>Preview (\<open>ArticlePreview.tsx\<close>)\<close>

text \<open>A rendered tag chip: the \<open>span\<close> with its key and its text.\<close>

datatype element = Span nat js_string

fun span_text :: "element \<Rightarrow> js_string" where
  "span_text (Span k t) = t"

text \<open>
  Lines 27 to 34: \<open>tags?.split(',').map((tag, index) => ...)\<close>. The property is
  undefined (\<open>None\<close>) until the field has a value, and then nothing is rendered.
\<close>

definition ArticlePreview_tags :: "js_string option \<Rightarrow> element list" where
  "ArticlePreview_tags tags_prop =
     (case tags_prop of
        None \<Rightarrow> []
      | Some t \<Rightarrow> map (\<lambda>(index, tag). Span index (trim tag)) (enumerate 0 (split_on comma t)))"

section \<open>Example inputs\<close>

text \<open>A draft with a staged image, and collaborators that answer in different ways.\<close>

definition example_file :: File where
  "example_file = \<lparr>name = lit ''cover.png'', bytes = [0x89, 0x50, 0x4E, 0x47]\<rparr>"

definition example_draft :: ArticleForm where
  "example_draft =
     \<lparr>title = lit ''Ten garden tips'', category = lit ''garden-planting'',
      excerpt = lit ''What to plant in spring.'', tags = lit ''a, b ,c''\<rparr>"

definition example_state :: AddArticle where
  "example_state =
     AddArticle_initial
       \<lparr>formValues := example_draft, image_file := Some example_file,
        imagePreview := lit ''data:image/png;base64,iVBORw=='',
        content := lit ''<p>Hello</p>''\<rparr>"

definition example_state_short_title :: AddArticle where
  "example_state_short_title =
     example_state\<lparr>formValues := example_draft\<lparr>title := lit ''Nine char''\<rparr>\<rparr>"

definition example_state_other_category :: AddArticle where
  "example_state_other_category =
     example_state\<lparr>formValues := example_draft\<lparr>category := lit ''electronics''\<rparr>\<rparr>"

definition example_state_no_image :: AddArticle where
  "example_state_no_image = removeImage example_state"

definition env_ok :: env where
  "env_ok =
     \<lparr>Date_now = 1700000000000,
      Date_toISOString = lit ''2023-11-14T22:13:20.000Z'',
      uploadBytes = (\<lambda>k f. Inr ()),
      getDownloadURL = (\<lambda>k. Inr (lit ''https://storage.example/'' @ k)),
      addDoc = (\<lambda>c doc. Inr ())\<rparr>"

definition env_upload_rejects :: env where
  "env_upload_rejects = env_ok\<lparr>uploadBytes := (\<lambda>k f. Inl (Error (lit ''storage/unauthorized'')))\<rparr>"

definition env_write_rejects :: env where
  "env_write_rejects = env_ok\<lparr>addDoc := (\<lambda>c doc. Inl (Error (lit ''permission-denied'')))\<rparr>"

section \<open>Properties of the regular-expression test\<close>

text \<open>The derivative test decides membership in the language.\<close>

lemma nullable_iff: "nullable r \<longleftrightarrow> [] \<in> lang r"
  by (induction r) (auto simp: conc_def intro: star.star_empty)

lemma conc_cons_iff:
  "c # w \<in> conc A B \<longleftrightarrow>
     (\<exists>u v. w = u @ v \<and> c # u \<in> A \<and> v \<in> B) \<or> ([] \<in> A \<and> c # w \<in> B)"
proof
  assume "c # w \<in> conc A B"
  then obtain u v where uv: "c # w = u @ v" "u \<in> A" "v \<in> B"
    by (auto simp: conc_def)
  show "(\<exists>u v. w = u @ v \<and> c # u \<in> A \<and> v \<in> B) \<or> ([] \<in> A \<and> c # w \<in> B)"
  proof (cases u)
    case Nil
    with uv show ?thesis by simp
  next
    case (Cons a u')
    with uv have "w = u' @ v" "c # u' \<in> A" by simp_all
    with uv(3) show ?thesis by blast
  qed
next
  assume "(\<exists>u v. w = u @ v \<and> c # u \<in> A \<and> v \<in> B) \<or> ([] \<in> A \<and> c # w \<in> B)"
  then show "c # w \<in> conc A B"
  proof
    assume "\<exists>u v. w = u @ v \<and> c # u \<in> A \<and> v \<in> B"
    then obtain u v where "w = u @ v" "c # u \<in> A" "v \<in> B" by blast
    then have "c # w = (c # u) @ v" by simp
    with \<open>c # u \<in> A\<close> \<open>v \<in> B\<close> show ?thesis unfolding conc_def by blast
  next
    assume "[] \<in> A \<and> c # w \<in> B"
    then have "c # w = [] @ (c # w)" "[] \<in> A" "c # w \<in> B" by simp_all
    then show ?thesis unfolding conc_def by blast
  qed
qed

lemma star_cons_split:
  "x \<in> star A \<Longrightarrow> x = c # w \<Longrightarrow> \<exists>u v. w = u @ v \<and> c # u \<in> A \<and> v \<in> star A"
proof (induction arbitrary: w rule: star.induct)
  case star_empty
  then show ?case by simp
next
  case (star_step u v)
  show ?case
  proof (cases u)
    case Nil
    with star_step show ?thesis by simp
  next
    case (Cons a u')
    with star_step.prems have "w = u' @ v" "a = c" by simp_all
    with Cons star_step.hyps show ?thesis by blast
  qed
qed

lemma star_cons_iff:
  "c # w \<in> star A \<longleftrightarrow> (\<exists>u v. w = u @ v \<and> c # u \<in> A \<and> v \<in> star A)"
proof
  assume "c # w \<in> star A"
  then show "\<exists>u v. w = u @ v \<and> c # u \<in> A \<and> v \<in> star A"
    by (rule star_cons_split) simp
next
  assume "\<exists>u v. w = u @ v \<and> c # u \<in> A \<and> v \<in> star A"
  then obtain u v where "w = u @ v" "c # u \<in> A" "v \<in> star A" by blast
  then show "c # w \<in> star A"
    using star.star_step [of "c # u" A v] by simp
qed

lemma lang_deriv: "w \<in> lang (deriv c r) \<longleftrightarrow> c # w \<in> lang r"
proof (induction r arbitrary: w)
  case (Seq r1 r2)
  have "w \<in> conc (lang (deriv c r1)) (lang r2) \<longleftrightarrow>
          (\<exists>u v. w = u @ v \<and> c # u \<in> lang r1 \<and> v \<in> lang r2)"
    using Seq.IH(1) by (auto simp: conc_def)
  with Seq.IH(2) show ?case
    by (simp add: conc_cons_iff nullable_iff)
next
  case (Star r)
  have "w \<in> conc (lang (deriv c r)) (star (lang r)) \<longleftrightarrow>
          (\<exists>u v. w = u @ v \<and> c # u \<in> lang r \<and> v \<in> star (lang r))"
    using Star.IH by (auto simp: conc_def)
  then show ?case by (simp add: star_cons_iff)
qed auto

lemma RegExp_test_iff_lang: "RegExp_test r s \<longleftrightarrow> s \<in> lang r"
  unfolding RegExp_test_def
  by (induction s arbitrary: r) (simp_all add: nullable_iff lang_deriv)

lemma star_Atom: "w \<in> star {[c] | c. P c} \<longleftrightarrow> (\<forall>c \<in> set w. P c)"
proof
  assume "w \<in> star {[c] | c. P c}"
  then show "\<forall>c \<in> set w. P c"
    by (induction rule: star.induct) auto
next
  assume "\<forall>c \<in> set w. P c"
  then show "w \<in> star {[c] | c. P c}"
  proof (induction w)
    case Nil
    show ?case by (rule star.star_empty)
  next
    case (Cons a w)
    then have "[a] \<in> {[c] | c. P c}" "w \<in> star {[c] | c. P c}" by simp_all
    then have "[a] @ w \<in> star {[c] | c. P c}" by (rule star.star_step)
    then show ?case by simp
  qed
qed

lemma conc_Atom_iff:
  "w \<in> conc {[c] | c. P c} B \<longleftrightarrow> (\<exists>a v. w = a # v \<and> P a \<and> v \<in> B)"
proof
  assume "w \<in> conc {[c] | c. P c} B"
  then obtain u v where "w = u @ v" "u \<in> {[c] | c. P c}" "v \<in> B"
    unfolding conc_def by blast
  then show "\<exists>a v. w = a # v \<and> P a \<and> v \<in> B" by auto
next
  assume "\<exists>a v. w = a # v \<and> P a \<and> v \<in> B"
  then obtain a v where "w = [a] @ v" "[a] \<in> {[c] | c. P c}" "v \<in> B" by auto
  then show "w \<in> conc {[c] | c. P c} B" unfolding conc_def by blast
qed

lemma lang_Plus_Atom:
  "w \<in> lang (Plus_rexp (Atom P)) \<longleftrightarrow> w \<noteq> [] \<and> (\<forall>c \<in> set w. P c)"
  by (cases w) (simp_all add: Plus_rexp_def conc_Atom_iff star_Atom)

lemma conc_iff: "w \<in> conc A B \<longleftrightarrow> (\<exists>u v. w = u @ v \<and> u \<in> A \<and> v \<in> B)"
  unfolding conc_def by blast

lemma emailRegex_shape: "RegExp_test emailRegex s \<longleftrightarrow> email_shape s"
proof -
  let ?run = "\<lambda>w. w \<noteq> [] \<and> (\<forall>c \<in> set w. not_space_or_at c)"
  let ?P = "lang (Plus_rexp (Atom not_space_or_at))"
  have plus: "\<And>w. w \<in> ?P \<longleftrightarrow> ?run w"
    by (rule lang_Plus_Atom)
  have tail: "\<And>w. w \<in> conc {[c] | c. c = full_stop} ?P \<longleftrightarrow> (\<exists>t. w = full_stop # t \<and> ?run t)"
    by (simp only: conc_Atom_iff plus) blast
  have dom: "\<And>w. w \<in> conc ?P (conc {[c] | c. c = full_stop} ?P) \<longleftrightarrow>
      (\<exists>d t. w = d @ full_stop # t \<and> ?run d \<and> ?run t)"
    by (simp only: conc_iff [of _ ?P] plus tail) blast
  have at: "\<And>w. w \<in> conc {[c] | c. c = at_sign} (conc ?P (conc {[c] | c. c = full_stop} ?P)) \<longleftrightarrow>
      (\<exists>d t. w = at_sign # d @ full_stop # t \<and> ?run d \<and> ?run t)"
    by (simp only: conc_Atom_iff dom) blast
  have "s \<in> lang emailRegex \<longleftrightarrow>
      s \<in> conc ?P (conc {[c] | c. c = at_sign} (conc ?P (conc {[c] | c. c = full_stop} ?P)))"
    by (simp add: emailRegex_def)
  also have "\<dots> \<longleftrightarrow> (\<exists>l d t. s = l @ at_sign # d @ full_stop # t \<and> ?run l \<and> ?run d \<and> ?run t)"
    by (simp only: conc_iff [of _ ?P] plus at) blast
  also have "\<dots> \<longleftrightarrow> email_shape s"
    unfolding email_shape_def by blast
  finally show ?thesis by (simp add: RegExp_test_iff_lang)
qed

section \<open>Properties of the credential check\<close>

lemma taxonomy_distinct:
  "InvalidFormat \<noteq> WeakCredential" "InvalidFormat \<noteq> AuthenticationFailed"
  "WeakCredential \<noteq> AuthenticationFailed"
  by (simp_all add: InvalidFormat_def WeakCredential_def AuthenticationFailed_def lit_def)

lemma admin_email_shape: "RegExp_test emailRegex admin_email"
  by code_simp

lemma admin_password_length: "length admin_password = 8"
  by (simp add: admin_password_def lit_def)

text \<open>
  C3. \<open>login\<close> throws \<open>InvalidFormat\<close> when the email has not the shape
  \<open>local@domain.tld\<close>; for an email of that shape it throws \<open>WeakCredential\<close> when the
  password is shorter than 6 code units; for a well-formed pair it throws
  \<open>AuthenticationFailed\<close> unless the pair is the hardcoded one; for the hardcoded
  pair, and for no other, it returns normally and stores a session with
  \<open>isAdmin = True\<close>. The checks run in this order, so the first that fails decides;
  the three errors are different values.
\<close>

theorem login_outcomes:
  "(\<not> email_shape em \<longrightarrow> fst (login u em pw) = Inl InvalidFormat) \<and>
   (email_shape em \<and> length pw < 6 \<longrightarrow> fst (login u em pw) = Inl WeakCredential) \<and>
   (email_shape em \<and> 6 \<le> length pw \<and> (em, pw) \<noteq> (admin_email, admin_password) \<longrightarrow>
      fst (login u em pw) = Inl AuthenticationFailed) \<and>
   login u admin_email admin_password =
     (Inr (), Some \<lparr>email = admin_email, isAdmin = True\<rparr>) \<and>
   (fst (login u em pw) = Inr () \<longleftrightarrow> (em, pw) = (admin_email, admin_password)) \<and>
   distinct [InvalidFormat, WeakCredential, AuthenticationFailed]"
proof -
  have shape: "RegExp_test emailRegex em \<longleftrightarrow> email_shape em"
    by (rule emailRegex_shape)
  have admin: "login u admin_email admin_password =
      (Inr (), Some \<lparr>email = admin_email, isAdmin = True\<rparr>)"
    by (simp add: login_def admin_email_shape admin_password_length)
  have only: "fst (login u em pw) = Inr () \<longleftrightarrow> (em, pw) = (admin_email, admin_password)"
    by (auto simp: login_def admin_email_shape admin_password_length)
  show ?thesis
    using admin only taxonomy_distinct by (simp add: login_def shape)
qed

theorem login_outcomes_witness:
  "\<not> email_shape (lit ''not-an-email'') \<and>
   fst (login None (lit ''not-an-email'') (lit ''anypassword'')) = Inl InvalidFormat \<and>
   email_shape (lit ''a@b.com'') \<and> length (lit ''short'') < 6 \<and>
   fst (login None (lit ''a@b.com'') (lit ''short'')) = Inl WeakCredential \<and>
   6 \<le> length (lit ''longer'') \<and> (lit ''a@b.com'', lit ''longer'') \<noteq> (admin_email, admin_password) \<and>
   fst (login None (lit ''a@b.com'') (lit ''longer'')) = Inl AuthenticationFailed \<and>
   fst (login None admin_email admin_password) = Inr ()"
proof -
  have bad: "\<not> email_shape (lit ''not-an-email'')"
    unfolding emailRegex_shape [symmetric] by code_simp
  have good: "email_shape (lit ''a@b.com'')"
    unfolding emailRegex_shape [symmetric] by code_simp
  have short: "length (lit ''short'') < 6" and long: "6 \<le> length (lit ''longer'')"
    by (simp_all add: lit_def)
  have other: "(lit ''a@b.com'', lit ''longer'') \<noteq> (admin_email, admin_password)"
    by (simp add: lit_def admin_password_def)
  from login_outcomes [where em = "lit ''not-an-email''" and u = None and pw = "lit ''anypassword''"] bad
  have 1: "fst (login None (lit ''not-an-email'') (lit ''anypassword'')) = Inl InvalidFormat"
    by blast
  from login_outcomes [where em = "lit ''a@b.com''" and u = None and pw = "lit ''short''"] good short
  have 2: "fst (login None (lit ''a@b.com'') (lit ''short'')) = Inl WeakCredential"
    by blast
  from login_outcomes [where em = "lit ''a@b.com''" and u = None and pw = "lit ''longer''"] good long other
  have 3: "fst (login None (lit ''a@b.com'') (lit ''longer'')) = Inl AuthenticationFailed"
    by blast
  from login_outcomes [where em = admin_email and u = None and pw = admin_password]
  have 4: "fst (login None admin_email admin_password) = Inr ()"
    by simp
  from bad good short long other 1 2 3 4 show ?thesis by blast
qed

text \<open>
  C9. Whenever \<open>login\<close> throws, whichever of the three checks failed, the stored
  session afterwards is the session before: only the success branch calls
  \<open>setUser\<close>.
\<close>

theorem login_failure_keeps_session:
  "fst (login u em pw) = Inl err \<Longrightarrow> snd (login u em pw) = u"
  by (auto simp: login_def split: if_splits)

theorem login_failure_keeps_session_witness:
  "fst (login (Some \<lparr>email = admin_email, isAdmin = True\<rparr>) (lit ''a@b.com'') (lit ''longer''))
     = Inl AuthenticationFailed \<and>
   snd (login (Some \<lparr>email = admin_email, isAdmin = True\<rparr>) (lit ''a@b.com'') (lit ''longer''))
     = Some \<lparr>email = admin_email, isAdmin = True\<rparr>"
proof -
  have f: "fst (login (Some \<lparr>email = admin_email, isAdmin = True\<rparr>) (lit ''a@b.com'')
      (lit ''longer'')) = Inl AuthenticationFailed"
    by code_simp
  from login_failure_keeps_session [OF f] f show ?thesis by simp
qed

section \<open>Properties of splitting and trimming\<close>

lemma split_on_not_Nil: "split_on sep s \<noteq> []"
  by (induction s) (auto split: list.splits)

lemma join_with_Cons:
  "ws \<noteq> [] \<Longrightarrow> join_with sep (w # ws) = w @ sep # join_with sep ws"
  by (cases ws) simp_all

lemma join_with_split_on: "join_with sep (split_on sep s) = s"
proof (induction s)
  case Nil
  show ?case by simp
next
  case (Cons c cs)
  show ?case
  proof (cases "c = sep")
    case True
    with Cons show ?thesis by (simp add: join_with_Cons split_on_not_Nil)
  next
    case False
    obtain w ws where sp: "split_on sep cs = w # ws"
      using split_on_not_Nil [of sep cs] by (cases "split_on sep cs") auto
    with Cons have "join_with sep (w # ws) = cs" by simp
    then have "join_with sep ((c # w) # ws) = c # cs" by (cases ws) auto
    with False sp show ?thesis by simp
  qed
qed

lemma split_on_no_sep: "w \<in> set (split_on sep s) \<Longrightarrow> sep \<notin> set w"
proof (induction s arbitrary: w)
  case Nil
  then show ?case by simp
next
  case (Cons c cs)
  then show ?case
    by (cases "split_on sep cs") (auto split: if_splits)
qed

lemma length_split_on: "length (split_on sep s) = Suc (count_list s sep)"
  by (induction s) (auto split: list.splits simp: split_on_not_Nil)

lemma split_on_no_sep_single: "sep \<notin> set w \<Longrightarrow> split_on sep w = [w]"
  by (induction w) auto

lemma split_on_append_sep:
  "sep \<notin> set w \<Longrightarrow> split_on sep (w @ sep # r) = w # split_on sep r"
  by (induction w) auto

lemma split_on_join_with:
  "ws \<noteq> [] \<Longrightarrow> \<forall>w \<in> set ws. sep \<notin> set w \<Longrightarrow> split_on sep (join_with sep ws) = ws"
proof (induction ws rule: join_with.induct)
  case (1 sep)
  then show ?case by simp
next
  case (2 sep w)
  then show ?case by (simp add: split_on_no_sep_single)
next
  case (3 sep w v vs)
  then show ?case by (simp add: split_on_append_sep)
qed

lemma hd_split_on_leading: "split_on sep (sep # r) = [] # split_on sep r"
  by simp

lemma last_split_on_trailing: "last (split_on sep (r @ [sep])) = []"
proof (induction r)
  case Nil
  show ?case by simp
next
  case (Cons c r)
  obtain w ws where sp: "split_on sep (r @ [sep]) = w # ws"
    using split_on_not_Nil [of sep "r @ [sep]"] by (cases "split_on sep (r @ [sep])") auto
  have "ws \<noteq> []"
    using length_split_on [of sep "r @ [sep]"] sp by (cases ws) auto
  with Cons sp show ?case by (auto simp: split_on_not_Nil)
qed

lemma trim_decompose:
  "\<exists>a b. s = a @ trim s @ b \<and> (\<forall>c \<in> set a. is_white_space c) \<and> (\<forall>c \<in> set b. is_white_space c)"
proof -
  let ?a = "takeWhile is_white_space s"
  let ?m = "dropWhile is_white_space s"
  let ?b = "rev (takeWhile is_white_space (rev ?m))"
  have "?m = trim s @ ?b"
    unfolding trim_def
    by (metis rev_append rev_rev_ident takeWhile_dropWhile_id)
  then have "s = ?a @ trim s @ ?b"
    by (metis takeWhile_dropWhile_id)
  moreover have "\<forall>c \<in> set ?a. is_white_space c"
    by (meson set_takeWhileD)
  moreover have "\<forall>c \<in> set ?b. is_white_space c"
    by (metis set_rev set_takeWhileD)
  ultimately show ?thesis by blast
qed

lemma trim_ends:
  "trim s \<noteq> [] \<Longrightarrow> \<not> is_white_space (hd (trim s)) \<and> \<not> is_white_space (last (trim s))"
proof -
  assume ne: "trim s \<noteq> []"
  let ?m = "dropWhile is_white_space s"
  let ?r = "dropWhile is_white_space (rev ?m)"
  have r: "?r \<noteq> []" using ne by (simp add: trim_def)
  then have "\<not> is_white_space (hd ?r)" by (rule hd_dropWhile)
  then have l: "\<not> is_white_space (last (trim s))"
    using r by (simp add: trim_def last_rev)
  have m: "?m \<noteq> []"
  proof
    assume e: "?m = []"
    have "?r = []" by (simp only: e rev.simps dropWhile.simps)
    with r show False by simp
  qed
  then have hm: "\<not> is_white_space (hd ?m)" by (rule hd_dropWhile)
  have "?m = trim s @ rev (takeWhile is_white_space (rev ?m))"
    unfolding trim_def by (metis rev_append rev_rev_ident takeWhile_dropWhile_id)
  then have "hd ?m = hd (trim s)" using ne by (metis hd_append2)
  with hm l show ?thesis by simp
qed

section \<open>Properties of the decimal numeral\<close>

lemma digit_char_props:
  "d < 10 \<Longrightarrow> is_digit (digit_char d) \<and> digit_value (digit_char d) = d \<and> digit_char d \<noteq> minus_sign"
proof -
  assume d: "d < 10"
  have "unat (digit_char d) = (48 + d) mod 2 ^ LENGTH(16)"
    unfolding digit_char_def by (rule unat_of_nat)
  with d have u: "unat (digit_char d) = 48 + d"
    by simp
  then have "digit_char d \<noteq> minus_sign"
    by (auto simp: minus_sign_def)
  with u d show ?thesis by (simp add: is_digit_def digit_value_def)
qed

lemma decimal_nat_digits: "list_all is_digit (decimal_nat n)"
proof (induction n rule: decimal_nat.induct)
  case (1 n)
  show ?case
  proof (cases "n < 10")
    case True
    then show ?thesis by (simp add: decimal_nat.simps [of n] digit_char_props)
  next
    case False
    with 1 show ?thesis by (simp add: decimal_nat.simps [of n] digit_char_props)
  qed
qed

lemma decimal_nat_not_Nil: "decimal_nat n \<noteq> []"
  by (simp add: decimal_nat.simps [of n])

lemma decimal_value_snoc: "decimal_value (ds @ [c]) = 10 * decimal_value ds + digit_value c"
  by (simp add: decimal_value_def)

lemma decimal_value_decimal_nat: "decimal_value (decimal_nat n) = n"
proof (induction n rule: decimal_nat.induct)
  case (1 n)
  show ?case
  proof (cases "n < 10")
    case True
    then show ?thesis
      by (simp add: decimal_nat.simps [of n] decimal_value_def digit_char_props)
  next
    case False
    with 1 have "decimal_value (decimal_nat (n div 10)) = n div 10" by simp
    with False show ?thesis
      by (simp add: decimal_nat.simps [of n] decimal_value_snoc digit_char_props)
  qed
qed

lemma hd_decimal_nat_not_minus: "hd (decimal_nat n) \<noteq> minus_sign"
proof -
  have "is_digit (hd (decimal_nat n))"
    using decimal_nat_digits [of n] decimal_nat_not_Nil [of n]
    by (cases "decimal_nat n") simp_all
  then show ?thesis by (auto simp: is_digit_def minus_sign_def)
qed

lemma parse_integer_Number_toString: "parse_integer (Number_toString n) = n"
proof (cases "n < 0")
  case True
  then show ?thesis
    by (simp add: parse_integer_def Number_toString_def decimal_value_decimal_nat)
next
  case False
  obtain c ds where ds: "decimal_nat (nat n) = c # ds"
    using decimal_nat_not_Nil [of "nat n"] by (cases "decimal_nat (nat n)") auto
  then have "c \<noteq> minus_sign"
    using hd_decimal_nat_not_minus [of "nat n"] by simp
  moreover have "decimal_value (c # ds) = nat n"
    using decimal_value_decimal_nat [of "nat n"] ds by simp
  ultimately show ?thesis
    using False ds by (simp add: parse_integer_def Number_toString_def)
qed

section \<open>Properties of \<open>onSubmit\<close>\<close>

lemma written_docs_append: "written_docs (l @ l') = written_docs l @ written_docs l'"
  by (induction l rule: written_docs.induct) simp_all

lemma upload_calls_append: "upload_calls (l @ l') = upload_calls l @ upload_calls l'"
  by (induction l rule: upload_calls.induct) simp_all

lemma user_alerts_append: "user_alerts (l @ l') = user_alerts l @ user_alerts l'"
  by (induction l rule: user_alerts.induct) simp_all

lemma console_errors_append: "console_errors (l @ l') = console_errors l @ console_errors l'"
  by (induction l rule: console_errors.induct) simp_all

text \<open>The upload step logs uploads only, in the state it was given.\<close>

lemma upload_image_log:
  "x \<in> set (snd (upload_image e s)) \<Longrightarrow> fst x = s \<and> is_upload (snd x)"
  by (auto simp: upload_image_def Let_def split: option.splits sum.splits)

lemma upload_image_projections:
  "written_docs (snd (upload_image e s)) = []"
  "user_alerts (snd (upload_image e s)) = []"
  "console_errors (snd (upload_image e s)) = []"
  by (simp_all add: upload_image_def Let_def split: option.splits sum.splits)

lemma upload_image_None: "image_file s = None \<Longrightarrow> upload_image e s = (Inr [], [])"
  by (simp add: upload_image_def)

lemma upload_image_Some:
  "image_file s = Some f \<Longrightarrow>
     upload_calls (snd (upload_image e s)) = [(storage_key (Date_now e) f, f)]"
  by (simp add: upload_image_def Let_def split: sum.splits)

lemma upload_image_fails_iff:
  "fst (upload_image e s) = Inl err \<longleftrightarrow>
     (\<exists>f. image_file s = Some f \<and>
        (uploadBytes e (storage_key (Date_now e) f) f = Inl err \<or>
         (\<exists>u. uploadBytes e (storage_key (Date_now e) f) f = Inr u) \<and>
           getDownloadURL e (storage_key (Date_now e) f) = Inl err))"
  by (auto simp: upload_image_def Let_def split: option.splits sum.splits)

lemma upload_image_state_irrelevant:
  "image_file s' = image_file s \<Longrightarrow> fst (upload_image e s') = fst (upload_image e s)"
  by (simp add: upload_image_def Let_def split: option.splits sum.splits)

text \<open>The three ways through the \<open>try\<close> block.\<close>

lemma onSubmit_try_cases:
  fixes e :: env and s :: AddArticle and d :: ArticleForm
  defines "s1 \<equiv> s\<lparr>isSubmitting := True\<rparr>"
  obtains
    (upload_failed) err l where
      "upload_image e s1 = (Inl err, l)"
      "onSubmit_try e s d = (Inl err, s1, l)"
  | (write_failed) url l err doc where
      "upload_image e s1 = (Inr url, l)"
      "doc = article_doc d (content s) url (persisted_tags (tags d)) (Date_toISOString e)"
      "addDoc e (lit ''articles'') doc = Inl err"
      "onSubmit_try e s d = (Inl err, s1, l @ [(s1, AddDoc (lit ''articles'') doc)])"
  | (success) url l doc s2 where
      "upload_image e s1 = (Inr url, l)"
      "doc = article_doc d (content s) url (persisted_tags (tags d)) (Date_toISOString e)"
      "addDoc e (lit ''articles'') doc = Inr ()"
      "s2 = (reset s1)\<lparr>content := [], image_file := None, imagePreview := []\<rparr>"
      "onSubmit_try e s d =
         (Inr (), s2,
          l @ [(s1, AddDoc (lit ''articles'') doc),
               (s2, Alert (lit ''Article published successfully!''))])"
proof (cases "upload_image e s1")
  case (Pair r l)
  show ?thesis
  proof (cases r)
    case (Inl err)
    with Pair have "onSubmit_try e s d = (Inl err, s1, l)"
      by (simp add: onSubmit_try_def Let_def s1_def)
    with Pair Inl show ?thesis by (intro upload_failed) simp_all
  next
    case (Inr url)
    let ?doc = "article_doc d (content s) url (persisted_tags (tags d)) (Date_toISOString e)"
    show ?thesis
    proof (cases "addDoc e (lit ''articles'') ?doc")
      case (Inl err)
      with Pair \<open>r = Inr url\<close>
      have "onSubmit_try e s d = (Inl err, s1, l @ [(s1, AddDoc (lit ''articles'') ?doc)])"
        by (simp add: onSubmit_try_def Let_def s1_def)
      with Pair \<open>r = Inr url\<close> Inl show ?thesis by (intro write_failed) simp_all
    next
      case (Inr u)
      let ?s2 = "(reset s1)\<lparr>content := [], image_file := None, imagePreview := []\<rparr>"
      from Inr Pair \<open>r = Inr url\<close>
      have "onSubmit_try e s d =
         (Inr (), ?s2,
          l @ [(s1, AddDoc (lit ''articles'') ?doc),
               (?s2, Alert (lit ''Article published successfully!''))])"
        by (simp add: onSubmit_try_def Let_def s1_def)
      with Pair \<open>r = Inr url\<close> Inr show ?thesis by (intro success) simp_all
    qed
  qed
qed

lemma onSubmit_Inl:
  "onSubmit_try e s d = (Inl err, s', l) \<Longrightarrow>
     onSubmit e s d =
       (s'\<lparr>isSubmitting := False\<rparr>,
        l @ [(s', ConsoleError (lit ''Error publishing article:'') err),
             (s', Alert (lit ''Error publishing article. Please try again.''))])"
  by (simp add: onSubmit_def)

lemma onSubmit_Inr:
  "onSubmit_try e s d = (Inr u, s', l) \<Longrightarrow> onSubmit e s d = (s'\<lparr>isSubmitting := False\<rparr>, l)"
  by (simp add: onSubmit_def)

text \<open>The documents handed to \<open>addDoc\<close>: none after a failed upload, else exactly one.\<close>

lemma written_docs_onSubmit:
  "written_docs (snd (onSubmit e s d)) =
     (case fst (upload_image e (s\<lparr>isSubmitting := True\<rparr>)) of
        Inl err \<Rightarrow> []
      | Inr url \<Rightarrow>
          [article_doc d (content s) url (persisted_tags (tags d)) (Date_toISOString e)])"
proof (cases rule: onSubmit_try_cases [where e = e and s = s and d = d])
  case (upload_failed err l)
  have "written_docs l = []"
    using upload_image_projections(1) [of e "s\<lparr>isSubmitting := True\<rparr>"] upload_failed(1) by simp
  with upload_failed show ?thesis
    by (simp add: onSubmit_Inl written_docs_append)
next
  case (write_failed url l err doc)
  have "written_docs l = []"
    using upload_image_projections(1) [of e "s\<lparr>isSubmitting := True\<rparr>"] write_failed(1) by simp
  with write_failed show ?thesis
    by (simp add: onSubmit_Inl written_docs_append)
next
  case (success url l doc s2)
  have "written_docs l = []"
    using upload_image_projections(1) [of e "s\<lparr>isSubmitting := True\<rparr>"] success(1) by simp
  with success show ?thesis
    by (simp add: onSubmit_Inr written_docs_append)
qed

lemma article_doc_fields:
  "map_of (article_doc d c url ts created) ''tags'' = Some (Arr ts)"
  "map_of (article_doc d c url ts created) ''imageUrl'' = Some (Str url)"
  "map_of (article_doc d c url ts created) ''content'' = Some (Str c)"
  "map_of (article_doc d c url ts created) ''title'' = Some (Str (title d))"
  by (simp_all add: article_doc_def data_object_def update_conv')

section \<open>The example inputs at work\<close>

lemma example_upload_ok:
  "\<exists>url. fst (upload_image env_ok (example_state\<lparr>isSubmitting := True\<rparr>)) = Inr url"
  by (simp add: upload_image_def env_ok_def example_state_def Let_def)

section \<open>The persisted tags\<close>

lemma persisted_tags_example:
  "persisted_tags (lit ''a, b ,c'') = [lit ''a'', lit ''b'', lit ''c'']"
  by (simp add: persisted_tags_def lit_def comma_def trim_def is_white_space_def)

lemma persisted_tags_kept:
  "persisted_tags (lit '',a,a,'') = [[], lit ''a'', lit ''a'', []]"
  by (simp add: persisted_tags_def lit_def comma_def trim_def is_white_space_def)

lemma trim_Nil: "trim [] = []"
  by (simp add: trim_def)

lemma written_tags:
  "doc \<in> set (written_docs (snd (onSubmit e s d))) \<Longrightarrow>
     map_of doc ''tags'' = Some (Arr (persisted_tags (tags d)))"
  by (auto simp: written_docs_onSubmit article_doc_fields split: sum.splits)

lemma trim_unique:
  assumes w: "w = a @ t @ b"
    and a: "\<forall>c \<in> set a. is_white_space c" and b: "\<forall>c \<in> set b. is_white_space c"
    and t: "t \<noteq> [] \<longrightarrow> \<not> is_white_space (hd t) \<and> \<not> is_white_space (last t)"
  shows "trim w = t"
proof (cases "t = []")
  case True
  with w a b have "\<forall>c \<in> set w. is_white_space c" by auto
  then have dw: "dropWhile is_white_space w = []" by (simp only: dropWhile_eq_Nil_conv)
  have "trim w = []" unfolding trim_def dw by simp
  with True show ?thesis by simp
next
  case False
  then obtain x t' where xt: "t = x # t'" by (cases t) auto
  with t have x: "\<not> is_white_space x" by simp
  have "\<And>c. c \<in> set a \<Longrightarrow> is_white_space c"
    using a by simp
  then have "dropWhile is_white_space (a @ t @ b) = dropWhile is_white_space (t @ b)"
    by (rule dropWhile_append2)
  then have "dropWhile is_white_space w = dropWhile is_white_space (t @ b)"
    unfolding w .
  also have "\<dots> = t @ b" using x xt by simp
  finally have front: "dropWhile is_white_space w = t @ b" .
  from False obtain y r where yr: "rev t = y # r" by (cases "rev t") auto
  then have "y = last t" using False by (metis last_rev list.sel(1) rev_rev_ident hd_rev)
  with t False have y: "\<not> is_white_space y" by simp
  have "\<And>c. c \<in> set (rev b) \<Longrightarrow> is_white_space c"
    using b by simp
  then have "dropWhile is_white_space (rev b @ rev t) = dropWhile is_white_space (rev t)"
    by (rule dropWhile_append2)
  then have "dropWhile is_white_space (rev (t @ b)) = dropWhile is_white_space (rev t)"
    by simp
  also have "\<dots> = rev t" using y yr by simp
  finally show ?thesis by (simp add: trim_def front)
qed

lemma persisted_tags_nth:
  "i < length (split_on comma raw) \<Longrightarrow> persisted_tags raw ! i = trim (split_on comma raw ! i)"
  by (simp add: persisted_tags_def)

text \<open>
  C4. The \<open>tags\<close> of every document handed to the document store are the raw string
  split on commas with each piece trimmed, piece by piece in order. Splitting is
  characterised by its inverse: joining the pieces with commas gives the raw string
  back, no piece holds a comma, and there is one piece more than there are commas, so
  nothing is dropped or merged; a leading or trailing comma gives an empty first or
  last tag. Trimming is characterised for every piece: the tag at a position is the
  piece at that position with white space taken off at both ends, the tag itself
  neither begins nor ends with white space, and it is the only string of which both
  hold. \<open>"a, b ,c"\<close> persists as \<open>["a", "b", "c"]\<close>, and \<open>",a,a,"\<close> as
  \<open>["", "a", "a", ""]\<close>.
\<close>

theorem persisted_tags_split_trim:
  "(\<forall>doc \<in> set (written_docs (snd (onSubmit e s d))).
      map_of doc ''tags'' = Some (Arr (persisted_tags (tags d)))) \<and>
   join_with comma (split_on comma raw) = raw \<and>
   (\<forall>w \<in> set (split_on comma raw). comma \<notin> set w) \<and>
   length (split_on comma raw) = Suc (count_list raw comma) \<and>
   length (persisted_tags raw) = length (split_on comma raw) \<and>
   (\<forall>i < length (split_on comma raw).
      \<exists>a b. split_on comma raw ! i = a @ persisted_tags raw ! i @ b \<and>
        list_all is_white_space a \<and> list_all is_white_space b) \<and>
   (\<forall>t \<in> set (persisted_tags raw).
      t \<noteq> [] \<longrightarrow> \<not> is_white_space (hd t) \<and> \<not> is_white_space (last t)) \<and>
   (\<forall>i < length (split_on comma raw). \<forall>a t b.
      split_on comma raw ! i = a @ t @ b \<and>
      list_all is_white_space a \<and> list_all is_white_space b \<and>
      (t \<noteq> [] \<longrightarrow> \<not> is_white_space (hd t) \<and> \<not> is_white_space (last t)) \<longrightarrow>
        persisted_tags raw ! i = t) \<and>
   hd (persisted_tags (comma # raw)) = [] \<and>
   last (persisted_tags (raw @ [comma])) = [] \<and>
   persisted_tags (lit ''a, b ,c'') = [lit ''a'', lit ''b'', lit ''c''] \<and>
   persisted_tags (lit '',a,a,'') = [[], lit ''a'', lit ''a'', []]"
proof -
  have docs: "\<forall>doc \<in> set (written_docs (snd (onSubmit e s d))).
      map_of doc ''tags'' = Some (Arr (persisted_tags (tags d)))"
    using written_tags by blast
  have len: "length (persisted_tags raw) = length (split_on comma raw)"
    by (simp add: persisted_tags_def)
  have pieces: "\<forall>i < length (split_on comma raw).
      \<exists>a b. split_on comma raw ! i = a @ persisted_tags raw ! i @ b \<and>
        list_all is_white_space a \<and> list_all is_white_space b"
    using trim_decompose by (simp add: list_all_iff persisted_tags_nth)
  have ends: "\<forall>t \<in> set (persisted_tags raw).
      t \<noteq> [] \<longrightarrow> \<not> is_white_space (hd t) \<and> \<not> is_white_space (last t)"
    using trim_ends by (auto simp: persisted_tags_def)
  have only: "\<forall>i < length (split_on comma raw). \<forall>a t b.
      split_on comma raw ! i = a @ t @ b \<and>
      list_all is_white_space a \<and> list_all is_white_space b \<and>
      (t \<noteq> [] \<longrightarrow> \<not> is_white_space (hd t) \<and> \<not> is_white_space (last t)) \<longrightarrow>
        persisted_tags raw ! i = t"
  proof (intro allI impI)
    fix i a t b
    assume i: "i < length (split_on comma raw)"
      and h: "split_on comma raw ! i = a @ t @ b \<and>
        list_all is_white_space a \<and> list_all is_white_space b \<and>
        (t \<noteq> [] \<longrightarrow> \<not> is_white_space (hd t) \<and> \<not> is_white_space (last t))"
    from h have "trim (split_on comma raw ! i) = t"
      by (intro trim_unique [of _ a t b]) (simp_all add: list_all_iff)
    with i show "persisted_tags raw ! i = t"
      by (simp add: persisted_tags_nth)
  qed
  have first: "hd (persisted_tags (comma # raw)) = []"
    by (simp add: persisted_tags_def trim_Nil)
  have "last (persisted_tags (raw @ [comma])) = trim (last (split_on comma (raw @ [comma])))"
    by (simp add: persisted_tags_def last_map split_on_not_Nil)
  then have final: "last (persisted_tags (raw @ [comma])) = []"
    by (simp add: last_split_on_trailing trim_Nil)
  have nosep: "\<forall>w \<in> set (split_on comma raw). comma \<notin> set w"
    using split_on_no_sep by blast
  have join: "join_with comma (split_on comma raw) = raw"
    by (rule join_with_split_on)
  have count: "length (split_on comma raw) = Suc (count_list raw comma)"
    by (rule length_split_on)
  from docs join nosep count len pieces ends only first final
    persisted_tags_example persisted_tags_kept
  show ?thesis by (intro conjI)
qed

theorem persisted_tags_split_trim_witness:
  "written_docs (snd (onSubmit env_ok example_state example_draft)) \<noteq> [] \<and>
   map_of (hd (written_docs (snd (onSubmit env_ok example_state example_draft)))) ''tags''
     = Some (Arr [lit ''a'', lit ''b'', lit ''c'']) \<and>
   split_on comma (lit ''a, b ,c'') = [lit ''a'', lit '' b '', lit ''c''] \<and>
   (1::nat) < length (split_on comma (lit ''a, b ,c'')) \<and>
   split_on comma (lit ''a, b ,c'') ! 1 = lit '' '' @ lit ''b'' @ lit '' '' \<and>
   list_all is_white_space (lit '' '') \<and>
   \<not> is_white_space (hd (lit ''b'')) \<and> \<not> is_white_space (last (lit ''b'')) \<and>
   persisted_tags (lit ''a, b ,c'') ! 1 = lit ''b''"
proof -
  let ?W = "written_docs (snd (onSubmit env_ok example_state example_draft))"
  note inst = persisted_tags_split_trim [of env_ok example_state example_draft "lit ''a, b ,c''"]
  have ne: "?W \<noteq> []"
    using example_upload_ok by (auto simp: written_docs_onSubmit)
  then have "hd ?W \<in> set ?W" by simp
  with inst have "map_of (hd ?W) ''tags'' = Some (Arr (persisted_tags (tags example_draft)))"
    by blast
  moreover have "tags example_draft = lit ''a, b ,c''"
    by (simp add: example_draft_def)
  moreover have sp: "split_on comma (lit ''a, b ,c'') = [lit ''a'', lit '' b '', lit ''c'']"
    by (simp add: lit_def comma_def)
  moreover from inst have "persisted_tags (lit ''a, b ,c'') = [lit ''a'', lit ''b'', lit ''c'']"
    by blast
  moreover have i: "(1::nat) < length (split_on comma (lit ''a, b ,c''))"
    by (simp add: sp)
  moreover have piece: "split_on comma (lit ''a, b ,c'') ! 1 = lit '' '' @ lit ''b'' @ lit '' ''"
    by (simp add: sp) (simp add: lit_def)
  moreover have ws: "list_all is_white_space (lit '' '')"
    by (simp add: lit_def is_white_space_def)
  moreover have nb: "lit ''b'' \<noteq> [] \<longrightarrow>
      \<not> is_white_space (hd (lit ''b'')) \<and> \<not> is_white_space (last (lit ''b''))"
    by (simp add: lit_def is_white_space_def)
  moreover from inst have "\<forall>i < length (split_on comma (lit ''a, b ,c'')). \<forall>a t b.
      split_on comma (lit ''a, b ,c'') ! i = a @ t @ b \<and>
      list_all is_white_space a \<and> list_all is_white_space b \<and>
      (t \<noteq> [] \<longrightarrow> \<not> is_white_space (hd t) \<and> \<not> is_white_space (last t)) \<longrightarrow>
        persisted_tags (lit ''a, b ,c'') ! i = t"
    by (elim conjE) assumption
  with i piece ws nb have "persisted_tags (lit ''a, b ,c'') ! 1 = lit ''b''"
    by blast
  moreover have "lit ''b'' \<noteq> []" by (simp add: lit_def)
  ultimately show ?thesis
    using ne by simp
qed

section \<open>The preview's tag chips\<close>

lemma map_snd_enumerate: "map snd (enumerate n xs) = xs"
  by (induction xs arbitrary: n) simp_all

lemma chips_text:
  "map span_text (ArticlePreview_tags (Some raw)) = map trim (split_on comma raw)"
proof -
  have "map span_text (ArticlePreview_tags (Some raw)) =
      map (trim \<circ> snd) (enumerate 0 (split_on comma raw))"
    by (simp add: ArticlePreview_tags_def comp_def case_prod_unfold)
  also have "\<dots> = map trim (map snd (enumerate 0 (split_on comma raw)))"
    by (simp only: map_map)
  finally show ?thesis by (simp only: map_snd_enumerate)
qed

text \<open>
  C10. For every raw tags string the texts of the chips the preview renders, in order,
  are the tags a publish of the same raw value hands to the document store; there is
  one chip per tag, keyed by its position.
\<close>

theorem preview_chips_are_persisted_tags:
  "map span_text (ArticlePreview_tags (Some raw)) = persisted_tags raw \<and>
   length (ArticlePreview_tags (Some raw)) = length (persisted_tags raw) \<and>
   (\<forall>doc \<in> set (written_docs (snd (onSubmit e s d))).
      map_of doc ''tags'' = Some (Arr (map span_text (ArticlePreview_tags (Some (tags d))))))"
proof -
  have eq: "\<And>r. map span_text (ArticlePreview_tags (Some r)) = persisted_tags r"
    by (simp add: chips_text persisted_tags_def)
  have "length (map span_text (ArticlePreview_tags (Some raw))) = length (persisted_tags raw)"
    by (simp only: eq)
  then have len: "length (ArticlePreview_tags (Some raw)) = length (persisted_tags raw)"
    by simp
  from eq len written_tags show ?thesis by simp
qed

theorem preview_chips_are_persisted_tags_witness:
  "written_docs (snd (onSubmit env_ok example_state example_draft)) \<noteq> [] \<and>
   map_of (hd (written_docs (snd (onSubmit env_ok example_state example_draft)))) ''tags''
     = Some (Arr (map span_text (ArticlePreview_tags (Some (lit ''a, b ,c''))))) \<and>
   ArticlePreview_tags (Some (lit ''a, b ,c'')) =
     [Span 0 (lit ''a''), Span 1 (lit ''b''), Span 2 (lit ''c'')]"
proof -
  let ?W = "written_docs (snd (onSubmit env_ok example_state example_draft))"
  have ne: "?W \<noteq> []"
    using example_upload_ok by (auto simp: written_docs_onSubmit)
  then have "hd ?W \<in> set ?W" by simp
  with preview_chips_are_persisted_tags [of "lit ''a, b ,c''" env_ok example_state example_draft]
  have "map_of (hd ?W) ''tags''
      = Some (Arr (map span_text (ArticlePreview_tags (Some (tags example_draft)))))"
    by blast
  moreover have "tags example_draft = lit ''a, b ,c''"
    by (simp add: example_draft_def)
  moreover have "ArticlePreview_tags (Some (lit ''a, b ,c'')) =
     [Span 0 (lit ''a''), Span 1 (lit ''b''), Span 2 (lit ''c'')]"
    by code_simp
  ultimately show ?thesis using ne by simp
qed

section \<open>The publish transaction\<close>

lemma example_no_image: "image_file example_state_no_image = None"
  by (simp add: example_state_no_image_def removeImage_def)

lemma example_image: "image_file example_state = Some example_file"
  by (simp add: example_state_def)

text \<open>The log of \<open>onSubmit\<close>: the uploads, then everything else.\<close>

lemma onSubmit_log_split:
  "\<exists>rest. snd (onSubmit e s d) = snd (upload_image e (s\<lparr>isSubmitting := True\<rparr>)) @ rest \<and>
     rest \<noteq> [] \<and>
     (\<forall>x \<in> set rest. \<not> is_upload (snd x)) \<and> upload_calls rest = [] \<and>
     (\<forall>x \<in> set rest. isSubmitting (fst x))"
proof (cases rule: onSubmit_try_cases [where e = e and s = s and d = d])
  case (upload_failed err l)
  then show ?thesis by (simp add: onSubmit_Inl)
next
  case (write_failed url l err doc)
  then show ?thesis by (simp add: onSubmit_Inl)
next
  case (success url l doc s2)
  then show ?thesis by (simp add: onSubmit_Inr reset_def)
qed

text \<open>
  C7. With no staged image, \<open>onSubmit\<close> makes no call to object storage, neither
  \<open>uploadBytes\<close> nor \<open>getDownloadURL\<close>, and hands exactly one document to the document
  store, whose \<open>imageUrl\<close> is the empty string.
\<close>

theorem no_image_no_upload:
  assumes "image_file s = None"
  shows "upload_calls (snd (onSubmit e s d)) = [] \<and>
         (\<forall>x \<in> set (snd (onSubmit e s d)). \<not> is_upload (snd x)) \<and>
         (\<exists>doc. written_docs (snd (onSubmit e s d)) = [doc] \<and>
                map_of doc ''imageUrl'' = Some (Str []))"
proof -
  from assms have up: "upload_image e (s\<lparr>isSubmitting := True\<rparr>) = (Inr [], [])"
    by (simp add: upload_image_None)
  obtain rest where rest: "snd (onSubmit e s d) = rest"
    "\<forall>x \<in> set rest. \<not> is_upload (snd x)" "upload_calls rest = []"
    using onSubmit_log_split [of e s d] up by auto
  have "written_docs (snd (onSubmit e s d)) =
      [article_doc d (content s) [] (persisted_tags (tags d)) (Date_toISOString e)]"
    by (simp add: written_docs_onSubmit up)
  with rest show ?thesis by (simp add: article_doc_fields)
qed

theorem no_image_no_upload_witness:
  "image_file example_state_no_image = None \<and>
   upload_calls (snd (onSubmit env_ok example_state_no_image example_draft)) = [] \<and>
   (\<exists>doc. written_docs (snd (onSubmit env_ok example_state_no_image example_draft)) = [doc] \<and>
          map_of doc ''imageUrl'' = Some (Str []))"
  using no_image_no_upload [OF example_no_image, of env_ok example_draft] example_no_image
  by simp

text \<open>
  C8. With a staged image, \<open>onSubmit\<close> calls \<open>uploadBytes\<close> once, with the staged file,
  under the key \<open>articles/\<close>, then the clock's milliseconds as a decimal integer, then
  a hyphen, then the name of the file. The decimal numeral reads back as the clock's
  value, and from 1970 on it consists of digits only.
\<close>

theorem upload_key_format:
  assumes "image_file s = Some f"
  shows "upload_calls (snd (onSubmit e s d)) =
           [(lit ''articles/'' @ Number_toString (Date_now e) @ lit ''-'' @ name f, f)] \<and>
         parse_integer (Number_toString (Date_now e)) = Date_now e \<and>
         (0 \<le> Date_now e \<longrightarrow> list_all is_digit (Number_toString (Date_now e)))"
proof -
  from assms have "image_file (s\<lparr>isSubmitting := True\<rparr>) = Some f" by simp
  then have "upload_calls (snd (upload_image e (s\<lparr>isSubmitting := True\<rparr>))) =
      [(storage_key (Date_now e) f, f)]"
    by (rule upload_image_Some)
  moreover obtain rest where
    "snd (onSubmit e s d) = snd (upload_image e (s\<lparr>isSubmitting := True\<rparr>)) @ rest"
    "upload_calls rest = []"
    using onSubmit_log_split [of e s d] by blast
  ultimately have "upload_calls (snd (onSubmit e s d)) = [(storage_key (Date_now e) f, f)]"
    by (simp add: upload_calls_append)
  moreover have "0 \<le> Date_now e \<longrightarrow> list_all is_digit (Number_toString (Date_now e))"
    by (simp add: Number_toString_def decimal_nat_digits)
  ultimately show ?thesis
    by (simp add: storage_key_def parse_integer_Number_toString)
qed

theorem upload_key_format_witness:
  "image_file example_state = Some example_file \<and>
   upload_calls (snd (onSubmit env_ok example_state example_draft)) =
     [(lit ''articles/1700000000000-cover.png'', example_file)] \<and>
   (0::int) \<le> Date_now env_ok"
proof -
  have now: "Date_now env_ok = 1700000000000"
    by (simp add: env_ok_def)
  have str: "Number_toString 1700000000000 = lit ''1700000000000''"
    by (simp add: Number_toString_def decimal_nat.simps digit_char_def lit_def)
  have nm: "name example_file = lit ''cover.png''"
    by (simp add: example_file_def)
  have "lit ''articles/'' @ lit ''1700000000000'' @ lit ''-'' @ lit ''cover.png'' =
      lit ''articles/1700000000000-cover.png''"
    by (simp add: lit_def)
  with upload_key_format [OF example_image, of env_ok example_draft] example_image now str nm
  show ?thesis by simp
qed

text \<open>A position in the log before the end of the uploads holds an upload.\<close>

lemma uploads_before_rest:
  assumes "\<forall>x \<in> set us. is_upload (snd x)" and "\<forall>x \<in> set rest. \<not> is_upload (snd x)"
    and "i < length (us @ rest)" and "j < length (us @ rest)"
    and "is_upload (snd ((us @ rest) ! i))" and "is_write (snd ((us @ rest) ! j))"
  shows "i < j"
proof -
  have i: "i < length us"
  proof (rule ccontr)
    assume "\<not> i < length us"
    with assms(3) have "(us @ rest) ! i \<in> set rest"
      by (simp add: nth_append)
    with assms(2,5) show False by blast
  qed
  have "\<not> j < length us"
  proof
    assume "j < length us"
    then have "(us @ rest) ! j \<in> set us"
      by (simp add: nth_append)
    with assms(1) have "is_upload (snd ((us @ rest) ! j))" by blast
    with assms(6) show False by (cases "snd ((us @ rest) ! j)") simp_all
  qed
  with i show ?thesis by simp
qed

lemma onSubmit_upload_failure:
  assumes "fst (upload_image e (s\<lparr>isSubmitting := True\<rparr>)) = Inl err"
  shows "(\<forall>x \<in> set (snd (onSubmit e s d)). \<not> is_write (snd x)) \<and>
         written_docs (snd (onSubmit e s d)) = [] \<and>
         console_errors (snd (onSubmit e s d)) = [err] \<and>
         user_alerts (snd (onSubmit e s d)) = [lit ''Error publishing article. Please try again.'']"
proof (cases rule: onSubmit_try_cases [where e = e and s = s and d = d])
  case (upload_failed err' l)
  with assms have err: "err' = err" by simp
  have l: "l = snd (upload_image e (s\<lparr>isSubmitting := True\<rparr>))"
    using upload_failed(1) by simp
  have nw: "\<forall>x \<in> set l. \<not> is_write (snd x)"
  proof
    fix x assume "x \<in> set l"
    then have "is_upload (snd x)" using upload_image_log l by blast
    then show "\<not> is_write (snd x)" by (cases "snd x") simp_all
  qed
  from upload_failed(2) err nw show ?thesis
    by (simp add: onSubmit_Inl written_docs_append console_errors_append user_alerts_append
        l upload_image_projections)
next
  case (write_failed url l err' doc)
  with assms show ?thesis by simp
next
  case (success url l doc s2)
  with assms show ?thesis by simp
qed

text \<open>
  C1, as amended. In every run of \<open>onSubmit\<close> each call to object storage comes before
  the call to the document store. When the upload fails, because \<open>uploadBytes\<close> or
  \<open>getDownloadURL\<close> rejects, \<open>addDoc\<close> is never called, the rejection is logged to the
  console, and the user sees the alert \<open>Error publishing article. Please try again.\<close>,
  which is the alert of every failed publish.
\<close>

theorem upload_precedes_write:
  "(\<forall>i j. i < length (snd (onSubmit e s d)) \<and> j < length (snd (onSubmit e s d)) \<and>
        is_upload (snd (snd (onSubmit e s d) ! i)) \<and>
        is_write (snd (snd (onSubmit e s d) ! j)) \<longrightarrow> i < j) \<and>
   (image_file s = Some f \<and>
    (uploadBytes e (storage_key (Date_now e) f) f = Inl err \<or>
     uploadBytes e (storage_key (Date_now e) f) f = Inr () \<and>
       getDownloadURL e (storage_key (Date_now e) f) = Inl err) \<longrightarrow>
      (\<forall>x \<in> set (snd (onSubmit e s d)). \<not> is_write (snd x)) \<and>
      written_docs (snd (onSubmit e s d)) = [] \<and>
      console_errors (snd (onSubmit e s d)) = [err] \<and>
      user_alerts (snd (onSubmit e s d)) = [lit ''Error publishing article. Please try again.''])"
proof -
  obtain rest where rest:
    "snd (onSubmit e s d) = snd (upload_image e (s\<lparr>isSubmitting := True\<rparr>)) @ rest"
    "\<forall>x \<in> set rest. \<not> is_upload (snd x)"
    using onSubmit_log_split [of e s d] by blast
  have ups: "\<forall>x \<in> set (snd (upload_image e (s\<lparr>isSubmitting := True\<rparr>))). is_upload (snd x)"
    using upload_image_log by blast
  have order: "\<forall>i j. i < length (snd (onSubmit e s d)) \<and> j < length (snd (onSubmit e s d)) \<and>
        is_upload (snd (snd (onSubmit e s d) ! i)) \<and>
        is_write (snd (snd (onSubmit e s d) ! j)) \<longrightarrow> i < j"
    unfolding rest(1) using uploads_before_rest [OF ups rest(2)] by blast
  have fail: "image_file s = Some f \<and>
    (uploadBytes e (storage_key (Date_now e) f) f = Inl err \<or>
     uploadBytes e (storage_key (Date_now e) f) f = Inr () \<and>
       getDownloadURL e (storage_key (Date_now e) f) = Inl err) \<Longrightarrow>
    fst (upload_image e (s\<lparr>isSubmitting := True\<rparr>)) = Inl err"
    by (subst upload_image_fails_iff) auto
  from order fail onSubmit_upload_failure [of e s err d] show ?thesis
    by blast
qed

lemma example_upload_rejected:
  "uploadBytes env_upload_rejects (storage_key (Date_now env_upload_rejects) example_file)
     example_file = Inl (Error (lit ''storage/unauthorized''))"
  by (simp add: env_upload_rejects_def)

lemma example_log_ok:
  "map snd (snd (onSubmit env_ok example_state example_draft)) =
     [UploadBytes (storage_key (Date_now env_ok) example_file) example_file,
      GetDownloadURL (storage_key (Date_now env_ok) example_file),
      AddDoc (lit ''articles'')
        (article_doc example_draft (content example_state)
           (lit ''https://storage.example/'' @ storage_key (Date_now env_ok) example_file)
           (persisted_tags (tags example_draft)) (Date_toISOString env_ok)),
      Alert (lit ''Article published successfully!'')]"
  by (simp add: onSubmit_def onSubmit_try_def upload_image_def Let_def example_state_def
      AddArticle_initial_def env_ok_def)

theorem upload_precedes_write_witness:
  "image_file example_state = Some example_file \<and>
   uploadBytes env_upload_rejects (storage_key (Date_now env_upload_rejects) example_file)
     example_file = Inl (Error (lit ''storage/unauthorized'')) \<and>
   written_docs (snd (onSubmit env_upload_rejects example_state example_draft)) = [] \<and>
   console_errors (snd (onSubmit env_upload_rejects example_state example_draft)) =
     [Error (lit ''storage/unauthorized'')] \<and>
   user_alerts (snd (onSubmit env_upload_rejects example_state example_draft)) =
     [lit ''Error publishing article. Please try again.''] \<and>
   (0::nat) < length (snd (onSubmit env_ok example_state example_draft)) \<and>
   2 < length (snd (onSubmit env_ok example_state example_draft)) \<and>
   is_upload (snd (snd (onSubmit env_ok example_state example_draft) ! 0)) \<and>
   is_write (snd (snd (onSubmit env_ok example_state example_draft) ! 2))"
proof -
  let ?l = "snd (onSubmit env_ok example_state example_draft)"
  have len: "length ?l = 4"
    using arg_cong [OF example_log_ok, of length] by simp
  have "snd (?l ! 0) = map snd ?l ! 0" "snd (?l ! 2) = map snd ?l ! 2"
    using len by simp_all
  then have ok: "is_upload (snd (?l ! 0))" "is_write (snd (?l ! 2))"
    by (simp_all add: example_log_ok)
  have "(0::nat) < 2"
    using upload_precedes_write [of env_ok example_state example_draft] len ok by simp
  with upload_precedes_write [of env_upload_rejects example_state example_draft example_file
      "Error (lit ''storage/unauthorized'')"]
    example_image example_upload_rejected len ok
  show ?thesis by simp
qed

text \<open>
  C1 as stated, that the error reported to the user is \<open>UploadFailed\<close>, does not
  hold: a publish whose upload is rejected and a publish whose document write is
  rejected show the user the same alert, although the thrown errors differ. What the
  user is told does not name the upload.
\<close>

theorem upload_failure_report_counterexample:
  "user_alerts (snd (onSubmit env_upload_rejects example_state example_draft)) =
     user_alerts (snd (onSubmit env_write_rejects example_state example_draft)) \<and>
   user_alerts (snd (onSubmit env_upload_rejects example_state example_draft)) =
     [lit ''Error publishing article. Please try again.''] \<and>
   fst (onSubmit_try env_upload_rejects example_state example_draft) =
     Inl (Error (lit ''storage/unauthorized'')) \<and>
   fst (onSubmit_try env_write_rejects example_state example_draft) =
     Inl (Error (lit ''permission-denied''))"
  by (simp add: onSubmit_def onSubmit_try_def upload_image_def Let_def example_state_def
      AddArticle_initial_def env_ok_def env_upload_rejects_def env_write_rejects_def)

section \<open>The draft after a publish\<close>

lemma onSubmit_try_fails_iff:
  "fst (onSubmit_try e s d) = Inl err \<longleftrightarrow>
     fst (upload_image e s) = Inl err \<or>
     (\<exists>url. fst (upload_image e s) = Inr url \<and>
        addDoc e (lit ''articles'')
          (article_doc d (content s) url (persisted_tags (tags d)) (Date_toISOString e)) = Inl err)"
proof -
  have up: "fst (upload_image e (s\<lparr>isSubmitting := True\<rparr>)) = fst (upload_image e s)"
    by (rule upload_image_state_irrelevant) simp
  show ?thesis
  proof (cases rule: onSubmit_try_cases [where e = e and s = s and d = d])
    case (upload_failed err' l)
    with up show ?thesis by auto
  next
    case (write_failed url l err' doc)
    with up show ?thesis by auto
  next
    case (success url l doc s2)
    with up show ?thesis by auto
  qed
qed

lemma onSubmit_state_success:
  assumes "fst (onSubmit_try e s d) = Inr u"
  shows "fst (onSubmit e s d) =
           (reset s)\<lparr>content := [], image_file := None, imagePreview := [], isSubmitting := False\<rparr>"
proof (cases rule: onSubmit_try_cases [where e = e and s = s and d = d])
  case (upload_failed err l)
  with assms show ?thesis by simp
next
  case (write_failed url l err doc)
  with assms show ?thesis by simp
next
  case (success url l doc s2)
  then show ?thesis by (simp add: onSubmit_Inr reset_def)
qed

lemma onSubmit_state_failure:
  assumes "fst (onSubmit_try e s d) = Inl err"
  shows "fst (onSubmit e s d) = s\<lparr>isSubmitting := False\<rparr>"
proof (cases rule: onSubmit_try_cases [where e = e and s = s and d = d])
  case (upload_failed err' l)
  then show ?thesis by (simp add: onSubmit_Inl)
next
  case (write_failed url l err' doc)
  then show ?thesis by (simp add: onSubmit_Inl)
next
  case (success url l doc s2)
  with assms show ?thesis by simp
qed

lemma default_category: "category useForm_defaultValues = hd category_options"
  by (simp add: useForm_defaultValues_def category_options_def)

text \<open>
  C2, as amended. When the publish succeeds, the form fields are back at the values
  they had when the form was mounted (title, excerpt and raw tags empty, category at
  the first option of its \<open>select\<close>, \<open>home-decor\<close>), the content cell is empty and no
  image is staged, file and preview both gone. When it fails, which is when the
  upload or the document write rejects, the form fields, the content cell and the
  staged image are what they were before.
\<close>

theorem publish_resets_on_success_only:
  "(fst (onSubmit_try e s d) = Inr () \<longrightarrow>
      formValues (fst (onSubmit e s d)) = formValues AddArticle_initial \<and>
      title (formValues (fst (onSubmit e s d))) = [] \<and>
      category (formValues (fst (onSubmit e s d))) = lit ''home-decor'' \<and>
      category (formValues (fst (onSubmit e s d))) = hd category_options \<and>
      excerpt (formValues (fst (onSubmit e s d))) = [] \<and>
      tags (formValues (fst (onSubmit e s d))) = [] \<and>
      content (fst (onSubmit e s d)) = [] \<and>
      image_file (fst (onSubmit e s d)) = None \<and>
      imagePreview (fst (onSubmit e s d)) = []) \<and>
   (fst (onSubmit_try e s d) = Inl err \<longrightarrow>
      formValues (fst (onSubmit e s d)) = formValues s \<and>
      content (fst (onSubmit e s d)) = content s \<and>
      image_file (fst (onSubmit e s d)) = image_file s \<and>
      imagePreview (fst (onSubmit e s d)) = imagePreview s) \<and>
   (fst (onSubmit_try e s d) = Inl err \<longleftrightarrow>
      fst (upload_image e s) = Inl err \<or>
      (\<exists>url. fst (upload_image e s) = Inr url \<and>
         addDoc e (lit ''articles'')
           (article_doc d (content s) url (persisted_tags (tags d)) (Date_toISOString e))
         = Inl err))"
proof -
  have ok: "fst (onSubmit_try e s d) = Inr () \<longrightarrow>
      formValues (fst (onSubmit e s d)) = formValues AddArticle_initial \<and>
      title (formValues (fst (onSubmit e s d))) = [] \<and>
      category (formValues (fst (onSubmit e s d))) = lit ''home-decor'' \<and>
      category (formValues (fst (onSubmit e s d))) = hd category_options \<and>
      excerpt (formValues (fst (onSubmit e s d))) = [] \<and>
      tags (formValues (fst (onSubmit e s d))) = [] \<and>
      content (fst (onSubmit e s d)) = [] \<and>
      image_file (fst (onSubmit e s d)) = None \<and>
      imagePreview (fst (onSubmit e s d)) = []"
  proof
    assume "fst (onSubmit_try e s d) = Inr ()"
    then have st: "fst (onSubmit e s d) =
        (reset s)\<lparr>content := [], image_file := None, imagePreview := [], isSubmitting := False\<rparr>"
      by (rule onSubmit_state_success)
    have "formValues (fst (onSubmit e s d)) = useForm_defaultValues"
      by (simp add: st reset_def)
    moreover have "formValues AddArticle_initial = useForm_defaultValues"
      by (simp add: AddArticle_initial_def)
    moreover have "title useForm_defaultValues = []" "excerpt useForm_defaultValues = []"
      "tags useForm_defaultValues = []" "category useForm_defaultValues = lit ''home-decor''"
      by (simp_all add: useForm_defaultValues_def)
    moreover have "content (fst (onSubmit e s d)) = []"
      "image_file (fst (onSubmit e s d)) = None" "imagePreview (fst (onSubmit e s d)) = []"
      by (simp_all add: st)
    ultimately show "formValues (fst (onSubmit e s d)) = formValues AddArticle_initial \<and>
      title (formValues (fst (onSubmit e s d))) = [] \<and>
      category (formValues (fst (onSubmit e s d))) = lit ''home-decor'' \<and>
      category (formValues (fst (onSubmit e s d))) = hd category_options \<and>
      excerpt (formValues (fst (onSubmit e s d))) = [] \<and>
      tags (formValues (fst (onSubmit e s d))) = [] \<and>
      content (fst (onSubmit e s d)) = [] \<and>
      image_file (fst (onSubmit e s d)) = None \<and>
      imagePreview (fst (onSubmit e s d)) = []"
      using default_category by simp
  qed
  have bad: "fst (onSubmit_try e s d) = Inl err \<longrightarrow>
      formValues (fst (onSubmit e s d)) = formValues s \<and>
      content (fst (onSubmit e s d)) = content s \<and>
      image_file (fst (onSubmit e s d)) = image_file s \<and>
      imagePreview (fst (onSubmit e s d)) = imagePreview s"
    by (simp add: onSubmit_state_failure)
  from ok bad onSubmit_try_fails_iff [of e s d err] show ?thesis
    by blast
qed

lemma example_try_ok: "fst (onSubmit_try env_ok example_state example_draft) = Inr ()"
  by (simp add: onSubmit_try_def upload_image_def Let_def example_state_def
      AddArticle_initial_def env_ok_def)

lemma example_try_write_rejected:
  "fst (onSubmit_try env_write_rejects example_state example_draft) =
     Inl (Error (lit ''permission-denied''))"
  by (simp add: onSubmit_try_def upload_image_def Let_def example_state_def
      AddArticle_initial_def env_ok_def env_write_rejects_def)

lemma example_try_upload_rejected:
  "fst (onSubmit_try env_upload_rejects example_state example_draft) =
     Inl (Error (lit ''storage/unauthorized''))"
  by (simp add: onSubmit_try_def upload_image_def Let_def example_state_def
      AddArticle_initial_def env_ok_def env_upload_rejects_def)

theorem publish_resets_on_success_only_witness:
  "fst (onSubmit_try env_ok example_state example_draft) = Inr () \<and>
   title (formValues (fst (onSubmit env_ok example_state example_draft))) = [] \<and>
   category (formValues (fst (onSubmit env_ok example_state example_draft))) = lit ''home-decor'' \<and>
   content (fst (onSubmit env_ok example_state example_draft)) = [] \<and>
   image_file (fst (onSubmit env_ok example_state example_draft)) = None \<and>
   imagePreview (fst (onSubmit env_ok example_state example_draft)) = [] \<and>
   fst (onSubmit_try env_write_rejects example_state example_draft) =
     Inl (Error (lit ''permission-denied'')) \<and>
   formValues (fst (onSubmit env_write_rejects example_state example_draft)) = example_draft \<and>
   content (fst (onSubmit env_write_rejects example_state example_draft)) = lit ''<p>Hello</p>'' \<and>
   image_file (fst (onSubmit env_write_rejects example_state example_draft)) = Some example_file \<and>
   fst (onSubmit_try env_upload_rejects example_state example_draft) =
     Inl (Error (lit ''storage/unauthorized'')) \<and>
   image_file (fst (onSubmit env_upload_rejects example_state example_draft)) = Some example_file"
proof -
  from publish_resets_on_success_only [of env_ok example_state example_draft] example_try_ok
  have 1: "title (formValues (fst (onSubmit env_ok example_state example_draft))) = []"
    "category (formValues (fst (onSubmit env_ok example_state example_draft))) = lit ''home-decor''"
    "content (fst (onSubmit env_ok example_state example_draft)) = []"
    "image_file (fst (onSubmit env_ok example_state example_draft)) = None"
    "imagePreview (fst (onSubmit env_ok example_state example_draft)) = []"
    by blast+
  from publish_resets_on_success_only [of env_write_rejects example_state example_draft
      "Error (lit ''permission-denied'')"] example_try_write_rejected
  have 2: "formValues (fst (onSubmit env_write_rejects example_state example_draft)) =
      formValues example_state"
    "content (fst (onSubmit env_write_rejects example_state example_draft)) = content example_state"
    "image_file (fst (onSubmit env_write_rejects example_state example_draft)) =
      image_file example_state"
    by blast+
  from publish_resets_on_success_only [of env_upload_rejects example_state example_draft
      "Error (lit ''storage/unauthorized'')"] example_try_upload_rejected
  have 3: "image_file (fst (onSubmit env_upload_rejects example_state example_draft)) =
      image_file example_state"
    by blast
  have st: "formValues example_state = example_draft" "content example_state = lit ''<p>Hello</p>''"
    "image_file example_state = Some example_file"
    by (simp_all add: example_state_def)
  from 1 2 3 st example_try_ok example_try_write_rejected example_try_upload_rejected
  show ?thesis by simp
qed

text \<open>
  C2 as stated, that after a successful publish all form fields are empty, does not
  hold: the category is back at \<open>home-decor\<close>, the first option of its \<open>select\<close>, which
  has no empty option.
\<close>

theorem publish_reset_category_counterexample:
  "fst (onSubmit_try env_ok example_state example_draft) = Inr () \<and>
   category (formValues (fst (onSubmit env_ok example_state example_draft))) = lit ''home-decor'' \<and>
   category (formValues (fst (onSubmit env_ok example_state example_draft))) \<noteq> []"
proof -
  have "fst (onSubmit env_ok example_state example_draft) =
      (reset example_state)
        \<lparr>content := [], image_file := None, imagePreview := [], isSubmitting := False\<rparr>"
    using example_try_ok by (rule onSubmit_state_success)
  then have "category (formValues (fst (onSubmit env_ok example_state example_draft))) =
      lit ''home-decor''"
    by (simp add: reset_def useForm_defaultValues_def)
  moreover have "lit ''home-decor'' \<noteq> []"
    by (simp add: lit_def)
  ultimately show ?thesis using example_try_ok by simp
qed

section \<open>The submit control\<close>

text \<open>
  C6. Every effect of \<open>onSubmit\<close>, the awaited calls included, happens in a state
  whose submit control is disabled, where a click submits nothing; there is at least
  one such effect. In the state \<open>onSubmit\<close> ends with the control is enabled again,
  whatever the collaborators answered.
\<close>

theorem submit_disabled_while_in_flight:
  "(\<forall>x \<in> set (snd (onSubmit e s d)).
      submit_disabled (fst x) \<and> click_submit e' (fst x) = None) \<and>
   snd (onSubmit e s d) \<noteq> [] \<and>
   \<not> submit_disabled (fst (onSubmit e s d)) \<and>
   click_submit e' (fst (onSubmit e s d)) = Some (handleSubmit e' (fst (onSubmit e s d)))"
proof -
  obtain rest where rest:
    "snd (onSubmit e s d) = snd (upload_image e (s\<lparr>isSubmitting := True\<rparr>)) @ rest"
    "rest \<noteq> []" "\<forall>x \<in> set rest. isSubmitting (fst x)"
    using onSubmit_log_split [of e s d] by blast
  have "\<forall>x \<in> set (snd (upload_image e (s\<lparr>isSubmitting := True\<rparr>))). isSubmitting (fst x)"
    using upload_image_log [of _ e "s\<lparr>isSubmitting := True\<rparr>"] by fastforce
  with rest have flight: "\<forall>x \<in> set (snd (onSubmit e s d)). isSubmitting (fst x)"
    by auto
  have after: "\<not> isSubmitting (fst (onSubmit e s d))"
  proof (cases "fst (onSubmit_try e s d)")
    case (Inl err)
    then show ?thesis by (simp add: onSubmit_state_failure)
  next
    case (Inr u)
    then show ?thesis by (simp add: onSubmit_state_success)
  qed
  from flight after rest(1,2) show ?thesis
    by (simp add: submit_disabled_def click_submit_def)
qed

theorem submit_disabled_while_in_flight_witness:
  "snd (onSubmit env_write_rejects example_state example_draft) \<noteq> [] \<and>
   submit_disabled (fst (hd (snd (onSubmit env_write_rejects example_state example_draft)))) \<and>
   \<not> submit_disabled (fst (onSubmit env_write_rejects example_state example_draft))"
proof -
  let ?l = "snd (onSubmit env_write_rejects example_state example_draft)"
  from submit_disabled_while_in_flight [of env_write_rejects example_state example_draft env_ok]
  have ne: "?l \<noteq> []" and all: "\<forall>x \<in> set ?l. submit_disabled (fst x)"
    and after: "\<not> submit_disabled (fst (onSubmit env_write_rejects example_state example_draft))"
    by blast+
  from ne have "hd ?l \<in> set ?l" by simp
  with all ne after show ?thesis by blast
qed

section \<open>Validation at submit time\<close>

lemma empty_not_an_option: "[] \<notin> set category_options"
  by (simp add: category_options_def lit_def)

lemma validate_Title:
  "validate_form d Title =
     (if title d = [] then Some (lit ''Title is required'')
      else if length (title d) < 10 then Some (lit ''Title must be at least 10 characters'')
      else None)"
  by (simp add: validate_form_def validateField_def)

lemma validate_Category:
  "validate_form d Category =
     (if category d = [] then Some (lit ''Category is required'') else None)"
  by (simp add: validate_form_def validateField_def)

lemma validate_Excerpt:
  "validate_form d Excerpt =
     (if excerpt d = [] then Some (lit ''Excerpt is required'')
      else if 160 < length (excerpt d) then Some (lit ''Excerpt must be less than 160 characters'')
      else None)"
  by (simp add: validate_form_def validateField_def)

lemma validate_Tags:
  "validate_form d Tags =
     (if tags d = [] then Some (lit ''At least one tag is required'') else None)"
  by (simp add: validate_form_def validateField_def)

lemma validate_form_rule_fails: "(validate_form d f \<noteq> None) = rule_fails f d"
proof (cases f)
  case Title
  then show ?thesis by (simp add: validate_Title)
next
  case Category
  then show ?thesis by (simp add: validate_Category)
next
  case Excerpt
  then show ?thesis by (simp add: validate_Excerpt)
next
  case Tags
  then show ?thesis by (simp add: validate_Tags)
qed

lemma all_fields: "list_all P registered_fields \<longleftrightarrow> (\<forall>f. P f)"
proof
  assume a: "list_all P registered_fields"
  show "\<forall>f. P f"
  proof
    fix f from a show "P f" by (cases f) (simp_all add: registered_fields_def)
  qed
next
  assume "\<forall>f. P f"
  then show "list_all P registered_fields" by (simp add: list_all_iff)
qed

lemma handleSubmit_Inr_iff:
  "(\<exists>r. handleSubmit e s = Inr r) \<longleftrightarrow> (\<forall>f. validate_form (formValues s) f = None)"
  by (simp add: handleSubmit_def Let_def all_fields)

lemma handleSubmit_Inl:
  "handleSubmit e s = Inl s' \<Longrightarrow> s' = s\<lparr>errors := validate_form (formValues s)\<rparr>"
  by (simp add: handleSubmit_def Let_def split: if_splits)

lemma handleSubmit_Inr:
  "handleSubmit e s = Inr r \<Longrightarrow> r = onSubmit e (s\<lparr>errors := no_errors\<rparr>) (formValues s)"
  by (simp add: handleSubmit_def Let_def split: if_splits)

lemma validate_form_independent:
  "field_value d' f = field_value d f \<Longrightarrow> validate_form d' f = validate_form d f"
  by (simp add: validate_form_def)

lemma submitted_iff: "submitted x \<longleftrightarrow> (\<exists>r. x = Inr r)"
  by (cases x) simp_all

text \<open>
  C5, as amended. Each registered field is checked by its own rule, on its own value
  only: the title fails when empty or shorter than 10 characters, the category when
  empty, the excerpt when empty or longer than 160 characters, the raw tags when
  empty. No rule looks at whether the category is one of the four values; the
  \<open>select\<close> offers only those, and each of them passes. \<open>onSubmit\<close> is called if and
  only if no rule fails; when some rule fails the errors of all failing fields are
  published together and the draft is left as it was; the editor content plays no
  part. A draft whose only defect is a title of 9 characters is rejected with the
  title's message and no other.
\<close>

theorem validation_at_submit:
  "(\<forall>f. (validate_form (formValues s) f \<noteq> None) = rule_fails f (formValues s)) \<and>
   (\<forall>f d'. field_value d' f = field_value (formValues s) f \<longrightarrow>
      validate_form d' f = validate_form (formValues s) f) \<and>
   (category (formValues s) \<in> set category_options \<longrightarrow>
      validate_form (formValues s) Category = None) \<and>
   ((\<exists>r. handleSubmit e s = Inr r) \<longleftrightarrow> (\<forall>f. \<not> rule_fails f (formValues s))) \<and>
   (\<forall>r. handleSubmit e s = Inr r \<longrightarrow>
      r = onSubmit e (s\<lparr>errors := no_errors\<rparr>) (formValues s)) \<and>
   (\<forall>s'. handleSubmit e s = Inl s' \<longrightarrow>
      (\<forall>f. (errors s' f \<noteq> None) = rule_fails f (formValues s)) \<and>
      s' = s\<lparr>errors := validate_form (formValues s)\<rparr>) \<and>
   (\<forall>c. (\<exists>r. handleSubmit e (s\<lparr>content := c\<rparr>) = Inr r) = (\<exists>r. handleSubmit e s = Inr r)) \<and>
   (length (title (formValues s)) = 9 \<and> \<not> rule_fails Category (formValues s) \<and>
    \<not> rule_fails Excerpt (formValues s) \<and> \<not> rule_fails Tags (formValues s) \<longrightarrow>
      (\<exists>s'. handleSubmit e s = Inl s' \<and>
         errors s' Title = Some (lit ''Title must be at least 10 characters'') \<and>
         errors s' Category = None \<and> errors s' Excerpt = None \<and> errors s' Tags = None))"
proof -
  let ?d = "formValues s"
  have rules: "\<forall>f. (validate_form ?d f \<noteq> None) = rule_fails f ?d"
    using validate_form_rule_fails by blast
  have indep: "\<forall>f d'. field_value d' f = field_value ?d f \<longrightarrow>
      validate_form d' f = validate_form ?d f"
    using validate_form_independent by blast
  have offered: "category ?d \<in> set category_options \<longrightarrow> validate_form ?d Category = None"
    using empty_not_an_option by (auto simp: validate_Category)
  have "(\<forall>f. validate_form ?d f = None) \<longleftrightarrow> (\<forall>f. \<not> rule_fails f ?d)"
    using rules by auto
  then have proceed: "(\<exists>r. handleSubmit e s = Inr r) \<longleftrightarrow> (\<forall>f. \<not> rule_fails f ?d)"
    unfolding handleSubmit_Inr_iff .
  have called: "\<forall>r. handleSubmit e s = Inr r \<longrightarrow>
      r = onSubmit e (s\<lparr>errors := no_errors\<rparr>) ?d"
    using handleSubmit_Inr by blast
  have rejected: "\<forall>s'. handleSubmit e s = Inl s' \<longrightarrow>
      (\<forall>f. (errors s' f \<noteq> None) = rule_fails f ?d) \<and>
      s' = s\<lparr>errors := validate_form ?d\<rparr>"
  proof (intro allI impI)
    fix s' assume "handleSubmit e s = Inl s'"
    then have s': "s' = s\<lparr>errors := validate_form ?d\<rparr>" by (rule handleSubmit_Inl)
    with rules show "(\<forall>f. (errors s' f \<noteq> None) = rule_fails f ?d) \<and>
        s' = s\<lparr>errors := validate_form ?d\<rparr>"
      by simp
  qed
  have "\<And>c. formValues (s\<lparr>content := c\<rparr>) = formValues s"
    by simp
  then have cont: "\<forall>c. (\<exists>r. handleSubmit e (s\<lparr>content := c\<rparr>) = Inr r) =
      (\<exists>r. handleSubmit e s = Inr r)"
    unfolding handleSubmit_Inr_iff by simp
  have nine: "length (title ?d) = 9 \<and> \<not> rule_fails Category ?d \<and>
      \<not> rule_fails Excerpt ?d \<and> \<not> rule_fails Tags ?d \<longrightarrow>
        (\<exists>s'. handleSubmit e s = Inl s' \<and>
           errors s' Title = Some (lit ''Title must be at least 10 characters'') \<and>
           errors s' Category = None \<and> errors s' Excerpt = None \<and> errors s' Tags = None)"
  proof
    assume a: "length (title ?d) = 9 \<and> \<not> rule_fails Category ?d \<and>
      \<not> rule_fails Excerpt ?d \<and> \<not> rule_fails Tags ?d"
    then have t: "validate_form ?d Title = Some (lit ''Title must be at least 10 characters'')"
      by (auto simp: validate_Title)
    from a rules have others: "validate_form ?d Category = None"
      "validate_form ?d Excerpt = None" "validate_form ?d Tags = None"
      by blast+
    from t have "\<not> (\<forall>f. validate_form ?d f = None)" by auto
    then have "\<not> (\<exists>r. handleSubmit e s = Inr r)" unfolding handleSubmit_Inr_iff .
    then obtain s' where s': "handleSubmit e s = Inl s'"
      by (cases "handleSubmit e s") auto
    then have "s' = s\<lparr>errors := validate_form ?d\<rparr>" by (rule handleSubmit_Inl)
    with t others have "errors s' Title = Some (lit ''Title must be at least 10 characters'')"
      "errors s' Category = None" "errors s' Excerpt = None" "errors s' Tags = None"
      by simp_all
    with s' show "\<exists>s'. handleSubmit e s = Inl s' \<and>
           errors s' Title = Some (lit ''Title must be at least 10 characters'') \<and>
           errors s' Category = None \<and> errors s' Excerpt = None \<and> errors s' Tags = None"
      by blast
  qed
  from rules indep offered proceed called rejected cont nine show ?thesis
    by (intro conjI)
qed

lemma example_category_ok:
  "category (formValues example_state) \<in> set category_options"
  by (simp add: example_state_def example_draft_def category_options_def)

lemma example_rules_pass: "\<not> rule_fails f (formValues example_state)"
  by (cases f)
    (simp_all add: example_state_def example_draft_def lit_def)

lemma example_short_title:
  "length (title (formValues example_state_short_title)) = 9"
  "\<not> rule_fails Category (formValues example_state_short_title)"
  "\<not> rule_fails Excerpt (formValues example_state_short_title)"
  "\<not> rule_fails Tags (formValues example_state_short_title)"
  by (simp_all add: example_state_short_title_def example_state_def example_draft_def lit_def)

theorem validation_at_submit_witness:
  "category (formValues example_state) \<in> set category_options \<and>
   validate_form (formValues example_state) Category = None \<and>
   (\<exists>r. handleSubmit env_ok example_state = Inr r) \<and>
   length (title (formValues example_state_short_title)) = 9 \<and>
   (\<exists>s'. handleSubmit env_ok example_state_short_title = Inl s' \<and>
      errors s' Title = Some (lit ''Title must be at least 10 characters'') \<and>
      errors s' Category = None \<and> errors s' Excerpt = None \<and> errors s' Tags = None \<and>
      rule_fails Title (formValues example_state_short_title))"
proof -
  from validation_at_submit [of example_state env_ok] example_category_ok
  have cat: "validate_form (formValues example_state) Category = None"
    by blast
  from validation_at_submit [of example_state env_ok] example_rules_pass
  have ok: "\<exists>r. handleSubmit env_ok example_state = Inr r"
    by blast
  from validation_at_submit [of example_state_short_title env_ok] example_short_title
  obtain s' where s': "handleSubmit env_ok example_state_short_title = Inl s'"
    "errors s' Title = Some (lit ''Title must be at least 10 characters'')"
    "errors s' Category = None" "errors s' Excerpt = None" "errors s' Tags = None"
    by blast
  from validation_at_submit [of example_state_short_title env_ok]
  have "\<forall>s'. handleSubmit env_ok example_state_short_title = Inl s' \<longrightarrow>
      (\<forall>f. (errors s' f \<noteq> None) = rule_fails f (formValues example_state_short_title)) \<and>
      s' = example_state_short_title
        \<lparr>errors := validate_form (formValues example_state_short_title)\<rparr>"
    by (elim conjE) assumption
  with s'(1) have "(errors s' Title \<noteq> None) =
      rule_fails Title (formValues example_state_short_title)"
    by blast
  with s'(2) have "rule_fails Title (formValues example_state_short_title)"
    by simp
  with cat ok s' example_short_title(1) example_category_ok show ?thesis by blast
qed

text \<open>
  C5 as stated, that validation requires the category to be one of the four
  enumerated values, does not hold: a draft whose category is \<open>electronics\<close>, none
  of the four, and whose other fields are valid passes every rule, and \<open>onSubmit\<close> is
  called. Only \<open>required\<close> is registered for the category (line 126).
\<close>

theorem validation_category_counterexample:
  "category (formValues example_state_other_category) \<notin> set category_options \<and>
   validate_form (formValues example_state_other_category) Category = None \<and>
   submitted (handleSubmit env_ok example_state_other_category)"
proof -
  have cat: "category (formValues example_state_other_category) \<notin> set category_options"
    by (simp add: example_state_other_category_def example_draft_def category_options_def
        lit_def)
  have none: "validate_form (formValues example_state_other_category) f = None" for f
    by (cases f)
      (simp_all add: validate_Title validate_Category validate_Excerpt validate_Tags
        example_state_other_category_def example_draft_def lit_def)
  then have "\<forall>f. validate_form (formValues example_state_other_category) f = None"
    by blast
  then have "\<exists>r. handleSubmit env_ok example_state_other_category = Inr r"
    unfolding handleSubmit_Inr_iff .
  then have "submitted (handleSubmit env_ok example_state_other_category)"
    unfolding submitted_iff .
  with cat none [of Category] show ?thesis by simp
qed

end
